theory Spec2Isabelle
  imports Complex_Main
begin

section \<open>NumPy arrays and Python slices\<close>

text \<open>
  The chunk stores of katdal hold NumPy arrays. An array is modelled by its shape, the
  name of its dtype and its elements as nested rows (row-major, one nesting level per
  dimension). The shape is kept beside the rows, as NumPy does, so that an array with an
  empty axis still has all its dimensions.
\<close>

type_synonym dtype = string

datatype 'a nd = Item 'a | Axis "'a nd list"

record 'a ndarray =
  shape :: "nat list"
  dtype :: dtype
  items :: "'a nd"

fun has_shape :: "nat list \<Rightarrow> 'a nd \<Rightarrow> bool" where
  "has_shape [] (Item x) = True"
| "has_shape (n # ns) (Axis xs) = (length xs = n \<and> list_all (has_shape ns) xs)"
| "has_shape _ _ = False"

definition well_formed :: "'a ndarray \<Rightarrow> bool" where
  "well_formed a = has_shape (shape a) (items a)"

fun item_at :: "nat list \<Rightarrow> 'a nd \<Rightarrow> 'a option" where
  "item_at [] (Item x) = Some x"
| "item_at (i # is) (Axis xs) = (if i < length xs then item_at is (xs ! i) else None)"
| "item_at _ _ = None"

text \<open>
  A Python \<^verbatim>\<open>slice(start, stop, step)\<close> with integer bounds; a step of \<^verbatim>\<open>None\<close>
  means 1, as in \<^verbatim>\<open>1:3\<close>.
\<close>

record pyslice =
  start :: int
  stop :: int
  step :: "int option"

definition step_of :: "pyslice \<Rightarrow> int" where
  "step_of s = (case step s of None \<Rightarrow> 1 | Some k \<Rightarrow> k)"

text \<open>
  How Python adjusts one bound of a slice to an axis of length \<open>n\<close>: a negative bound
  counts from the end, and a bound beyond either end is clipped.
\<close>

definition adjust :: "int \<Rightarrow> int \<Rightarrow> int \<Rightarrow> int" where
  "adjust k n i =
     (if i < 0 then (if i + n < 0 then (if k < 0 then - 1 else 0) else i + n)
      else if n \<le> i then (if k < 0 then n - 1 else n)
      else i)"

definition slice_positions :: "pyslice \<Rightarrow> nat \<Rightarrow> nat list" where
  "slice_positions s n =
     (let k = step_of s;
          a = adjust k (int n) (start s);
          b = adjust k (int n) (stop s);
          len = (if k < 0 then (if b < a then (a - b - 1) div (- k) + 1 else 0)
                 else (if a < b then (b - a - 1) div k + 1 else 0))
      in map (\<lambda>i. nat (a + int i * k)) [0..<nat len])"

fun view_shape :: "pyslice list \<Rightarrow> nat list \<Rightarrow> nat list" where
  "view_shape (s # ss) (n # ns) = length (slice_positions s n) # view_shape ss ns"
| "view_shape _ ns = ns"

fun select :: "pyslice list \<Rightarrow> 'a nd \<Rightarrow> 'a nd" where
  "select (s # ss) (Axis xs) =
     Axis (map (\<lambda>p. select ss (xs ! p)) (slice_positions s (length xs)))"
| "select _ d = d"

datatype exc = KeyError | IndexError | ValueError | TypeError

text \<open>
  What indexing returns: the selected data, and whether it is a NumPy scalar. Indexing an
  array of at least one dimension with slices returns a view, which shares the memory of
  the array and can be assigned to; for an array of no dimension \<^verbatim>\<open>a[()]\<close> is a
  NumPy scalar, a copy of the element that supports no item assignment.
\<close>

record 'a indexed = "'a ndarray" +
  is_scalar :: bool

text \<open>
  \<^verbatim>\<open>a[slices]\<close> for a tuple of slice objects (NumPy basic indexing): more slices than
  dimensions is an IndexError, a zero step a ValueError, and dimensions without a slice
  are taken whole.
\<close>

definition getitem :: "'a ndarray \<Rightarrow> pyslice list \<Rightarrow> exc + 'a indexed" where
  "getitem a ss =
     (if length (shape a) < length ss then Inl IndexError
      else if list_ex (\<lambda>s. step s = Some 0) ss then Inl ValueError
      else Inr \<lparr>shape = view_shape ss (shape a), dtype = dtype a,
                items = select ss (items a), is_scalar = (shape a = [])\<rparr>)"

text \<open>
  NumPy broadcasting of a value to the shape of the view it is assigned to: shapes are
  aligned at their last dimension, missing leading dimensions are added and dimensions
  of length 1 are repeated.
\<close>

definition broadcastable :: "nat list \<Rightarrow> nat list \<Rightarrow> bool" where
  "broadcastable src tgt =
     (length src \<le> length tgt \<and>
      list_all2 (\<lambda>m n. m = n \<or> m = 1) src (drop (length tgt - length src) tgt))"

fun stretch :: "nat list \<Rightarrow> 'a nd \<Rightarrow> 'a nd" where
  "stretch (n # ns) (Axis [x]) = Axis (replicate n (stretch ns x))"
| "stretch (n # ns) (Axis xs) = Axis (map (stretch ns) xs)"
| "stretch _ d = d"

definition broadcast_to :: "nat list \<Rightarrow> 'a ndarray \<Rightarrow> 'a nd option" where
  "broadcast_to tgt a =
     (if broadcastable (shape a) tgt
      then Some (stretch tgt (((\<lambda>d. Axis [d]) ^^ (length tgt - length (shape a))) (items a)))
      else None)"

text \<open>
  Writing through a view: \<open>store_at ss old v\<close> is the base array \<open>old\<close> after
  \<^verbatim>\<open>old[ss][:] = v\<close>, for \<open>v\<close> already broadcast to the shape of the view.
\<close>

fun store_at :: "pyslice list \<Rightarrow> 'a nd \<Rightarrow> 'a nd \<Rightarrow> 'a nd" where
  "store_at (s # ss) (Axis xs) (Axis vs) =
     Axis (fold (\<lambda>(p, v) ys. ys[p := store_at ss (ys ! p) v])
             (zip (slice_positions s (length xs)) vs) xs)"
| "store_at [] old v = v"
| "store_at _ old _ = old"

section \<open>Chunk stores: errors and validation\<close>

text \<open>
  A chunk is identified by the name of its array and its ranges. The errors of a store
  are \<^verbatim>\<open>ChunkNotFound\<close> and \<^verbatim>\<open>BadChunk\<close>; an exception of the backend that the
  store does not translate is \<open>Uncaught\<close>. An error message is modelled by what it
  names: the message of \<^verbatim>\<open>DictChunkStore.get\<close> for a dtype that differs is
  \<open>DtypeDiffers\<close> with the chunk, the requested dtype and the actual dtype.
\<close>

type_synonym chunk_id = "string \<times> pyslice list"

datatype message =
    NonUnitStep string "pyslice list"
  | OutOfBounds string "pyslice list"
  | ShapeDiffers chunk_id "nat list" "nat list"
  | DtypeDiffers chunk_id dtype dtype
  | BackendFailure chunk_id exc

datatype error =
    ChunkNotFound chunk_id exc
  | BadChunk message
  | Uncaught exc

datatype standard_error = ChunkNotFoundE | BadChunkE

text \<open>
  The arrays of a \<^verbatim>\<open>DictChunkStore\<close> are the caller's array objects, kept by reference,
  and two of them may share memory. An array object is modelled as a window of ranges
  onto a buffer, and memory as the array that every buffer holds.
\<close>

type_synonym addr = nat

record array_ref =
  buffer :: addr
  window :: "pyslice list"

text \<open>
  A \<^verbatim>\<open>DictChunkStore\<close>: the error map handed to the base class, the dict
  \<^verbatim>\<open>self.arrays\<close> from names to array objects, and the memory these objects refer to.
\<close>

record 'a DictChunkStore =
  error_map :: "(exc \<times> standard_error) list"
  array_refs :: "string \<rightharpoonup> array_ref"
  memory :: "addr \<Rightarrow> 'a ndarray"

text \<open>The array that an array object shows, and \<^verbatim>\<open>self.arrays\<close> as read: the array
  of each name.\<close>

definition deref :: "(addr \<Rightarrow> 'a ndarray) \<Rightarrow> array_ref \<Rightarrow> 'a ndarray" where
  "deref mem r =
     \<lparr>shape = view_shape (window r) (shape (mem (buffer r))),
      dtype = dtype (mem (buffer r)),
      items = select (window r) (items (mem (buffer r)))\<rparr>"

definition arrays :: "'a DictChunkStore \<Rightarrow> string \<rightharpoonup> 'a ndarray" where
  "arrays st n = map_option (deref (memory st)) (array_refs st n)"

text \<open>
  Modelled from the spec: the invariant of a chunk, which \<^verbatim>\<open>chunk_metadata\<close> validates
  (katdal/chunkstore.py is not among the sources): every range has unit step (a step of
  1, or none) and lies within the declared bounds of the array, one range per dimension.
  The shape of the ranges is the length \<open>stop - start\<close> of each.
\<close>

definition unit_step :: "pyslice \<Rightarrow> bool" where
  "unit_step s = (step s = None \<or> step s = Some 1)"

definition slices_shape :: "pyslice list \<Rightarrow> nat list" where
  "slices_shape ss = map (\<lambda>s. nat (stop s - start s)) ss"

definition in_bounds :: "nat list \<Rightarrow> pyslice list \<Rightarrow> bool" where
  "in_bounds bounds ss =
     list_all2 (\<lambda>s n. 0 \<le> start s \<and> start s \<le> stop s \<and> stop s \<le> int n) ss bounds"



text \<open>
  Modelled from the spec: \<^verbatim>\<open>ChunkStore.chunk_metadata\<close> (katdal/chunkstore.py is not
  among the sources). It validates that every range has unit step and lies within the
  declared bounds of the named array (one range per dimension; an array the store does
  not know has no declared bounds to check), and, when a chunk is supplied (the write
  path), takes shape and dtype from it: the chunk's dtype must agree with a requested
  dtype and its shape with the shape of the target ranges, which is the validation
  \<^verbatim>\<open>put\<close> delegates to this call. Every failure is a BadChunk. It returns the
  identity of the chunk (array name and ranges) and its shape.
\<close>

definition chunk_metadata ::
  "'a DictChunkStore \<Rightarrow> string \<Rightarrow> pyslice list \<Rightarrow> dtype option \<Rightarrow> 'a ndarray option
     \<Rightarrow> error + (chunk_id \<times> nat list)" where
  "chunk_metadata st array_name slices dt chunk =
     (if \<not> list_all unit_step slices then Inl (BadChunk (NonUnitStep array_name slices))
      else if (case arrays st array_name of None \<Rightarrow> False
               | Some a \<Rightarrow> \<not> in_bounds (shape a) slices)
        then Inl (BadChunk (OutOfBounds array_name slices))
      else case chunk of
        None \<Rightarrow> Inr ((array_name, slices), slices_shape slices)
      | Some c \<Rightarrow>
          (case (if dt = Some (dtype c) then None else dt) of
             Some d \<Rightarrow> Inl (BadChunk (DtypeDiffers (array_name, slices) d (dtype c)))
           | None \<Rightarrow>
               if shape c \<noteq> slices_shape slices
               then Inl (BadChunk (ShapeDiffers (array_name, slices)
                                     (slices_shape slices) (shape c)))
               else Inr ((array_name, slices), shape c)))"

text \<open>
  Modelled from the spec: \<^verbatim>\<open>ChunkStore._standard_errors\<close> (katdal/chunkstore.py is not
  among the sources), the translation of a backend's own failure through the error map
  supplied at construction. A failure the map does not list is not caught.
\<close>

definition standard_errors ::
  "(exc \<times> standard_error) list \<Rightarrow> chunk_id \<Rightarrow> exc + 'b \<Rightarrow> error + 'b" where
  "standard_errors emap chunk_name r =
     (case r of
        Inr v \<Rightarrow> Inr v
      | Inl e \<Rightarrow>
          (case map_of emap e of
             Some ChunkNotFoundE \<Rightarrow> Inl (ChunkNotFound chunk_name e)
           | Some BadChunkE \<Rightarrow> Inl (BadChunk (BackendFailure chunk_name e))
           | None \<Rightarrow> Inl (Uncaught e)))"

section \<open>DictChunkStore (katdal/chunkstore\_dict.py)\<close>

text \<open>
  \<^verbatim>\<open>DictChunkStore.__init__\<close>: \<^verbatim>\<open>self.arrays = kwargs\<close> keeps the array objects of
  the caller, in the memory they live in.
\<close>

definition DictChunkStore_init ::
  "(addr \<Rightarrow> 'a ndarray) \<Rightarrow> (string \<rightharpoonup> array_ref) \<Rightarrow> 'a DictChunkStore" where
  "DictChunkStore_init mem kwargs =
     \<lparr>error_map = [(KeyError, ChunkNotFoundE), (IndexError, ChunkNotFoundE)],
      array_refs = kwargs, memory = mem\<rparr>"

text \<open>The expression \<^verbatim>\<open>self.arrays[array_name][slices]\<close>.\<close>

definition lookup :: "'a DictChunkStore \<Rightarrow> string \<Rightarrow> pyslice list \<Rightarrow> exc + 'a indexed" where
  "lookup st array_name slices =
     (case arrays st array_name of
        None \<Rightarrow> Inl KeyError
      | Some a \<Rightarrow> getitem a slices)"

definition get ::
  "'a DictChunkStore \<Rightarrow> string \<Rightarrow> pyslice list \<Rightarrow> dtype \<Rightarrow> error + 'a indexed" where
  "get st array_name slices dt =
     (case chunk_metadata st array_name slices (Some dt) None of
        Inl e \<Rightarrow> Inl e
      | Inr (chunk_name, shp) \<Rightarrow>
          (case standard_errors (error_map st) chunk_name (lookup st array_name slices) of
             Inl e \<Rightarrow> Inl e
           | Inr chunk \<Rightarrow>
               if dt \<noteq> dtype chunk
               then Inl (BadChunk (DtypeDiffers chunk_name dt (dtype chunk)))
               else Inr chunk))"

text \<open>
  Assigning \<open>v\<close> to the ranges \<open>ss\<close> of an array object that is the window \<open>w\<close> onto
  the buffer \<open>b\<close>: the buffer is written in place, within the window.
\<close>

definition write_through :: "'a ndarray \<Rightarrow> pyslice list \<Rightarrow> pyslice list \<Rightarrow> 'a nd \<Rightarrow> 'a ndarray" where
  "write_through b w ss v =
     b\<lparr>items := store_at w (items b) (store_at ss (select w (items b)) v)\<rparr>"

text \<open>
  \<^verbatim>\<open>put\<close> assigns to what \<^verbatim>\<open>get\<close> returns. When that is a view, the assignment
  writes into the memory of the named array, and so into every array object that shares
  it; when it is a NumPy scalar, the assignment is a TypeError. The store is passed
  explicitly: the result is the outcome of the call together with the store after it. An
  assignment whose value cannot be broadcast to the view is NumPy's ValueError, raised
  before anything is written.
\<close>

definition put ::
  "'a DictChunkStore \<Rightarrow> string \<Rightarrow> pyslice list \<Rightarrow> 'a ndarray
     \<Rightarrow> (error + unit) \<times> 'a DictChunkStore" where
  "put st array_name slices chunk =
     (case chunk_metadata st array_name slices None (Some chunk) of
        Inl e \<Rightarrow> (Inl e, st)
      | Inr _ \<Rightarrow>
          (case get st array_name slices (dtype chunk) of
             Inl e \<Rightarrow> (Inl e, st)
           | Inr view \<Rightarrow>
               if is_scalar view then (Inl (Uncaught TypeError), st)
               else
                 (case (array_refs st array_name, broadcast_to (shape view) chunk) of
                    (Some r, Some v) \<Rightarrow>
                      (Inr (),
                       st\<lparr>memory := (memory st)(buffer r :=
                            write_through (memory st (buffer r)) (window r) slices v)\<rparr>)
                  | _ \<Rightarrow> (Inl (Uncaught ValueError), st))))"

text \<open>
  Scenario A of the specification: an in-memory store with one array \<^verbatim>\<open>vis\<close> of shape
  \<open>(4, 2, 1)\<close>, the ranges \<^verbatim>\<open>(1:3, 0:2, 0:1)\<close>, and a chunk of the shape of these
  ranges.
\<close>

definition scenario_vis :: "int ndarray" where
  "scenario_vis =
     \<lparr>shape = [4, 2, 1], dtype = ''int64'',
      items = Axis [Axis [Axis [Item 0], Axis [Item 1]],
                    Axis [Axis [Item 2], Axis [Item 3]],
                    Axis [Axis [Item 4], Axis [Item 5]],
                    Axis [Axis [Item 6], Axis [Item 7]]]\<rparr>"

text \<open>The window of an array object that shows the whole of its buffer, and the content
  of an address that holds no array of the scenario.\<close>

definition whole :: "nat list \<Rightarrow> pyslice list" where
  "whole ns = map (\<lambda>n. \<lparr>start = 0, stop = int n, step = None\<rparr>) ns"

definition no_array :: "int ndarray" where
  "no_array = \<lparr>shape = [0], dtype = ''int64'', items = Axis []\<rparr>"

definition scenario_store :: "int DictChunkStore" where
  "scenario_store =
     DictChunkStore_init ((\<lambda>_. no_array)(0 := scenario_vis))
       [''vis'' \<mapsto> \<lparr>buffer = 0, window = whole [4, 2, 1]\<rparr>]"

definition scenario_slices :: "pyslice list" where
  "scenario_slices =
     [\<lparr>start = 1, stop = 3, step = None\<rparr>,
      \<lparr>start = 0, stop = 2, step = None\<rparr>,
      \<lparr>start = 0, stop = 1, step = None\<rparr>]"

definition scenario_chunk :: "int ndarray" where
  "scenario_chunk =
     \<lparr>shape = [2, 2, 1], dtype = ''int64'',
      items = Axis [Axis [Axis [Item 20], Axis [Item 30]],
                    Axis [Axis [Item 40], Axis [Item 50]]]\<rparr>"



section \<open>Correlator data sources (katdal/datasources.py)\<close>

text \<open>
  The array-likes handed to \<^verbatim>\<open>VisFlagsWeights\<close> are lazy (dask) arrays, of which the
  class reads only the shape; a lazy array is modelled by its shape and dtype.
\<close>

record lazy_array =
  la_shape :: "nat list"
  la_dtype :: dtype

datatype data_error =
    ShapesDiffer "nat list" "nat list" "nat list"
  | CannotBroadcast "nat list" "nat list"
  | MissingArray string

record VisFlagsWeights =
  vis :: lazy_array
  flags :: lazy_array
  weights :: lazy_array
  name :: string

text \<open>
  \<^verbatim>\<open>VisFlagsWeights.__init__\<close>: the ValueError of differing shapes is \<open>ShapesDiffer\<close>.
  Python's chained comparison \<^verbatim>\<open>a == b == c\<close> is \<^verbatim>\<open>a == b and b == c\<close>.
\<close>

definition VisFlagsWeights_init ::
  "lazy_array \<Rightarrow> lazy_array \<Rightarrow> lazy_array \<Rightarrow> string \<Rightarrow> data_error + VisFlagsWeights" where
  "VisFlagsWeights_init v f w nm =
     (if \<not> (la_shape v = la_shape f \<and> la_shape f = la_shape w)
      then Inl (ShapesDiffer (la_shape v) (la_shape f) (la_shape w))
      else Inr \<lparr>vis = v, flags = f, weights = w, name = nm\<rparr>)"

text \<open>The property \<^verbatim>\<open>VisFlagsWeights.shape\<close>.\<close>

definition vfw_shape :: "'m VisFlagsWeights_scheme \<Rightarrow> nat list" where
  "vfw_shape self = la_shape (vis self)"

text \<open>
  NumPy broadcasting of the shapes of two operands, aligned at their last dimension
  (the lists are compared reversed): two lengths agree when they are equal or one of
  them is 1.
\<close>

fun broadcast_rev :: "nat list \<Rightarrow> nat list \<Rightarrow> nat list option" where
  "broadcast_rev [] ys = Some ys"
| "broadcast_rev xs [] = Some xs"
| "broadcast_rev (x # xs) (y # ys) =
     (if x = y \<or> y = 1 then map_option ((#) x) (broadcast_rev xs ys)
      else if x = 1 then map_option ((#) y) (broadcast_rev xs ys)
      else None)"

definition broadcast_shapes :: "nat list \<Rightarrow> nat list \<Rightarrow> nat list option" where
  "broadcast_shapes a b = map_option rev (broadcast_rev (rev a) (rev b))"

text \<open>\<^verbatim>\<open>a[..., np.newaxis]\<close> and \<^verbatim>\<open>a * b\<close> on lazy arrays. The dtype of a product follows
  NumPy's promotion table, which is a parameter here.\<close>

definition new_trailing_axis :: "lazy_array \<Rightarrow> lazy_array" where
  "new_trailing_axis a = a\<lparr>la_shape := la_shape a @ [1]\<rparr>"

definition multiply ::
  "(dtype \<Rightarrow> dtype \<Rightarrow> dtype) \<Rightarrow> lazy_array \<Rightarrow> lazy_array \<Rightarrow> data_error + lazy_array" where
  "multiply result_type a b =
     (case broadcast_shapes (la_shape a) (la_shape b) of
        None \<Rightarrow> Inl (CannotBroadcast (la_shape a) (la_shape b))
      | Some s \<Rightarrow> Inr \<lparr>la_shape = s, la_dtype = result_type (la_dtype a) (la_dtype b)\<rparr>)"

record chunk_info_entry =
  info_dtype :: dtype
  info_shape :: "nat list"
  info_chunks :: "nat list list"

text \<open>
  Modelled from the spec: \<^verbatim>\<open>ChunkStore.join\<close> (katdal/chunkstore.py is not among the
  sources), the concatenation of name parts with a reserved separator, taken to be a
  slash.
\<close>

definition join :: "string \<Rightarrow> string \<Rightarrow> string" where
  "join a b = a @ ''/'' @ b"

text \<open>
  Modelled from the spec: \<^verbatim>\<open>ChunkStore.get_dask_array\<close> (katdal/chunkstore.py is not
  among the sources), the lazily chunked handle of a named array with the given chunk
  sizes per dimension and dtype: its length along a dimension is the sum of the chunk
  sizes of that dimension.
\<close>

definition get_dask_array :: "'s \<Rightarrow> string \<Rightarrow> nat list list \<Rightarrow> dtype \<Rightarrow> lazy_array" where
  "get_dask_array st array_name chunks dt = \<lparr>la_shape = map sum_list chunks, la_dtype = dt\<rparr>"

record 's ChunkStoreVisFlagsWeights = VisFlagsWeights +
  store :: 's

text \<open>
  \<^verbatim>\<open>ChunkStoreVisFlagsWeights.__init__\<close>. A name missing from \<^verbatim>\<open>chunk_info\<close> is the
  KeyError of \<^verbatim>\<open>da[...]\<close>, here \<open>MissingArray\<close>.
\<close>

definition ChunkStoreVisFlagsWeights_init ::
  "(dtype \<Rightarrow> dtype \<Rightarrow> dtype) \<Rightarrow> 's \<Rightarrow> string \<Rightarrow> (string \<rightharpoonup> chunk_info_entry)
     \<Rightarrow> data_error + 's ChunkStoreVisFlagsWeights" where
  "ChunkStoreVisFlagsWeights_init result_type st base_name chunk_info =
     (let da = (\<lambda>array. map_option
                  (\<lambda>info. get_dask_array st (join base_name array)
                             (info_chunks info) (info_dtype info))
                  (chunk_info array))
      in case da ''correlator_data'' of
           None \<Rightarrow> Inl (MissingArray ''correlator_data'')
         | Some v \<Rightarrow>
        (case da ''flags'' of
           None \<Rightarrow> Inl (MissingArray ''flags'')
         | Some f \<Rightarrow>
        (case da ''weights'' of
           None \<Rightarrow> Inl (MissingArray ''weights'')
         | Some w \<Rightarrow>
        (case da ''weights_channel'' of
           None \<Rightarrow> Inl (MissingArray ''weights_channel'')
         | Some wc \<Rightarrow>
        (case multiply result_type w (new_trailing_axis wc) of
           Inl e \<Rightarrow> Inl e
         | Inr ws \<Rightarrow>
        (case VisFlagsWeights_init v f ws base_name of
           Inl e \<Rightarrow> Inl e
         | Inr obj \<Rightarrow>
             Inr \<lparr>vis = vis obj, flags = flags obj, weights = weights obj,
                  name = name obj, store = st\<rparr>))))))"

text \<open>The chunk information of a small data set, for the examples below.\<close>

definition l0_chunk_info :: "string \<rightharpoonup> chunk_info_entry" where
  "l0_chunk_info =
     [''correlator_data'' \<mapsto>
        \<lparr>info_dtype = ''complex64'', info_shape = [4, 2, 3], info_chunks = [[2, 2], [2], [3]]\<rparr>,
      ''flags'' \<mapsto>
        \<lparr>info_dtype = ''uint8'', info_shape = [4, 2, 3], info_chunks = [[2, 2], [2], [3]]\<rparr>,
      ''weights'' \<mapsto>
        \<lparr>info_dtype = ''uint8'', info_shape = [4, 2, 3], info_chunks = [[2, 2], [2], [3]]\<rparr>,
      ''weights_channel'' \<mapsto>
        \<lparr>info_dtype = ''float32'', info_shape = [4, 2], info_chunks = [[2, 2], [2]]\<rparr>]"

section \<open>H5DataV3 (katdal/h5datav3.py): the weights\<close>

datatype warning = NotLegitimateWeight string "string list" | NoValidWeights

text \<open>
  The part of an \<^verbatim>\<open>H5DataV3\<close> object that the weights use: the weight description table
  of the file (rows of name and description; \<open>None\<close> when the attribute is not set), the
  selected weight indices, the \<^verbatim>\<open>squeeze\<close> flag, and the warnings logged so far.
\<close>

record H5DataV3 =
  weights_description :: "(string \<times> string) list option"
  weights_select :: "nat list"
  squeeze :: bool
  logged :: "warning list"

text \<open>The argument of the setter: a string (\<^verbatim>\<open>'all'\<close> or names separated by commas) or a
  sequence of names.\<close>

datatype weight_names = Str string | Seq "string list"

text \<open>\<^verbatim>\<open>s.split(c)\<close> and \<^verbatim>\<open>xs.index(x)\<close> (\<open>None\<close> for its ValueError).\<close>

fun split_on :: "char \<Rightarrow> string \<Rightarrow> string list" where
  "split_on c [] = [[]]"
| "split_on c (x # xs) =
     (if x = c then [] # split_on c xs
      else case split_on c xs of
             w # ws \<Rightarrow> (x # w) # ws
           | [] \<Rightarrow> [[x]])"

fun index_of :: "'a list \<Rightarrow> 'a \<Rightarrow> nat option" where
  "index_of [] x = None"
| "index_of (y # ys) x = (if y = x then Some 0 else map_option Suc (index_of ys x))"

definition known_weights :: "'m H5DataV3_scheme \<Rightarrow> string list" where
  "known_weights self =
     (case weights_description self of None \<Rightarrow> [] | Some rows \<Rightarrow> map fst rows)"

definition requested_names :: "string list \<Rightarrow> weight_names \<Rightarrow> string list" where
  "requested_names known names =
     (if names = Str ''all'' then known
      else case names of Str s \<Rightarrow> split_on CHR '','' s | Seq ns \<Rightarrow> ns)"

text \<open>The loop of the setter over the names, with the selection and the log so far.\<close>

fun weights_loop ::
  "string list \<Rightarrow> string list \<Rightarrow> nat list \<times> warning list \<Rightarrow> nat list \<times> warning list" where
  "weights_loop known [] acc = acc"
| "weights_loop known (n # ns) (selection, lg) =
     (case index_of known n of
        Some i \<Rightarrow> weights_loop known ns (selection @ [i], lg)
      | None \<Rightarrow> weights_loop known ns (selection, lg @ [NotLegitimateWeight n known]))"

definition set_weights_keep :: "H5DataV3 \<Rightarrow> weight_names \<Rightarrow> H5DataV3" where
  "set_weights_keep self names =
     (let known = known_weights self;
          (selection, lg) = weights_loop known (requested_names known names) ([], logged self);
          lg' = (if known \<noteq> [] \<and> selection = [] then lg @ [NoValidWeights] else lg)
      in self\<lparr>weights_select := selection, logged := lg'\<rparr>)"

text \<open>\<^verbatim>\<open>np.ones_like(a, dtype=dt)\<close> and \<^verbatim>\<open>a.astype(dt)\<close>; the rounding of a value to the
  new dtype is a parameter.\<close>

definition ones_like :: "'a ndarray \<Rightarrow> dtype \<Rightarrow> real ndarray" where
  "ones_like a dt = \<lparr>shape = shape a, dtype = dt, items = map_nd (\<lambda>_. 1) (items a)\<rparr>"

definition astype :: "('a \<Rightarrow> 'b) \<Rightarrow> dtype \<Rightarrow> 'a ndarray \<Rightarrow> 'b ndarray" where
  "astype cast dt a = \<lparr>shape = shape a, dtype = dt, items = map_nd cast (items a)\<rparr>"

text \<open>An entry of the second-stage selection handed to the indexer.\<close>

datatype index =
    IntIndex int
  | SliceIndex "int option" "int option" "int option"
  | ListIndex "int list"

fun isscalar :: "index \<Rightarrow> bool" where
  "isscalar (IntIndex i) = True"
| "isscalar _ = False"

text \<open>
  \<^verbatim>\<open>data[tuple(keep_singles)]\<close> for entries that are \<^verbatim>\<open>np.newaxis\<close> (\<open>True\<close>) or
  \<^verbatim>\<open>slice(None)\<close> (\<open>False\<close>): a new axis of length 1 is inserted, a full slice takes the
  next dimension whole, and more full slices than dimensions is an IndexError.
\<close>

fun insert_axes_shape :: "bool list \<Rightarrow> nat list \<Rightarrow> nat list option" where
  "insert_axes_shape [] ns = Some ns"
| "insert_axes_shape (True # bs) ns = map_option ((#) 1) (insert_axes_shape bs ns)"
| "insert_axes_shape (False # bs) (n # ns) = map_option ((#) n) (insert_axes_shape bs ns)"
| "insert_axes_shape (False # bs) [] = None"

fun insert_axes :: "bool list \<Rightarrow> 'a nd \<Rightarrow> 'a nd" where
  "insert_axes (True # bs) d = Axis [insert_axes bs d]"
| "insert_axes (False # bs) (Axis xs) = Axis (map (insert_axes bs) xs)"
| "insert_axes _ d = d"

text \<open>\<^verbatim>\<open>keep[:3] + (slice(None),) * (3 - len(keep))\<close>: the selection cut or padded to three
  entries.\<close>

definition keep_3 :: "index list \<Rightarrow> index list" where
  "keep_3 keep = take 3 keep @ replicate (3 - length keep) (SliceIndex None None None)"

definition force_3dim :: "'a ndarray \<Rightarrow> index list \<Rightarrow> exc + 'a ndarray" where
  "force_3dim data keep =
     (let keep_singles = map isscalar (keep_3 keep)
      in case insert_axes_shape keep_singles (shape data) of
           None \<Rightarrow> Inl IndexError
         | Some shp \<Rightarrow>
             Inr \<lparr>shape = shp, dtype = dtype data,
                  items = insert_axes keep_singles (items data)\<rparr>)"

text \<open>
  Modelled from the spec: the materialisation of a \<^verbatim>\<open>LazyIndexer\<close>
  (katdal/lazy\_indexer.py is not among the sources). The data pulled from the source by
  the selections is folded through the transform chain in declared order, every
  transform receiving the same second-stage selection. The pulling itself is not
  modelled: the pulled data is an argument.
\<close>

fun apply_transforms ::
  "('a ndarray \<Rightarrow> index list \<Rightarrow> exc + 'a ndarray) list \<Rightarrow> index list \<Rightarrow> 'a ndarray
     \<Rightarrow> exc + 'a ndarray" where
  "apply_transforms [] keep data = Inr data"
| "apply_transforms (t # ts) keep data =
     (case t data keep of Inl e \<Rightarrow> Inl e | Inr d \<Rightarrow> apply_transforms ts keep d)"

text \<open>The transform chain that \<^verbatim>\<open>_vislike_indexer\<close> builds around an extractor.\<close>

definition vislike_transforms ::
  "'m H5DataV3_scheme \<Rightarrow> ('a ndarray \<Rightarrow> index list \<Rightarrow> exc + 'a ndarray)
     \<Rightarrow> ('a ndarray \<Rightarrow> index list \<Rightarrow> exc + 'a ndarray) list" where
  "vislike_transforms self extractor =
     (if squeeze self then [extractor] else [extractor, force_3dim])"

text \<open>The extractor of the \<^verbatim>\<open>weights\<close> property and the materialisation of its indexer
  on pulled data.\<close>

definition weights_transform ::
  "(real \<Rightarrow> real) \<Rightarrow> 'm H5DataV3_scheme \<Rightarrow> real ndarray \<Rightarrow> index list \<Rightarrow> exc + real ndarray" where
  "weights_transform float32 self w keep =
     Inr (if weights_select self \<noteq> [] then astype float32 ''float32'' w
          else ones_like w ''float32'')"

definition weights_getitem ::
  "(real \<Rightarrow> real) \<Rightarrow> 'm H5DataV3_scheme \<Rightarrow> real ndarray \<Rightarrow> index list \<Rightarrow> exc + real ndarray" where
  "weights_getitem float32 self pulled keep =
     apply_transforms (vislike_transforms self (weights_transform float32 self)) keep pulled"

text \<open>A file whose weight description table is empty, and some weights data.\<close>

definition h5_no_weight_types :: H5DataV3 where
  "h5_no_weight_types =
     \<lparr>weights_description = Some [], weights_select = [], squeeze = True, logged = []\<rparr>"

definition h5_precision :: H5DataV3 where
  "h5_precision =
     \<lparr>weights_description = Some [(''precision'', ''visibility precision'')],
      weights_select = [], squeeze = False, logged = []\<rparr>"

definition some_weights :: "real ndarray" where
  "some_weights =
     \<lparr>shape = [1, 2], dtype = ''float32'', items = Axis [Axis [Item 3, Item 5]]\<rparr>"

section \<open>The sensor cache\<close>

datatype lookup_error = SensorLookupFailure string

text \<open>
  Modelled from the spec: the state of a \<^verbatim>\<open>SensorCache\<close> (katdal/sensordata.py is not
  among the sources): the mapping from sensor names to sensor data, and the registry of
  virtual sensors, each a name pattern with a compute function that is run on the
  mapping. The extraction of raw samples is not modelled: sensor data is a value of any
  type.
\<close>

record 'v SensorCache =
  sensor_store :: "string \<rightharpoonup> 'v"
  virtual :: "((string \<Rightarrow> bool) \<times> ((string \<rightharpoonup> 'v) \<Rightarrow> string \<Rightarrow> 'v option)) list"

text \<open>
  Modelled from the spec: \<^verbatim>\<open>SensorCache.get\<close> (katdal/sensordata.py is not among the
  sources). A name the cache holds is returned; any other name is matched against the
  registered patterns, and the compute function of the first pattern that matches is
  run, its result being memoised under the name. A name that is neither held nor
  computed is a lookup failure, which leaves the cache as it was.
\<close>

definition sensor_get ::
  "'v SensorCache \<Rightarrow> string \<Rightarrow> (lookup_error + 'v) \<times> 'v SensorCache" where
  "sensor_get cache nm =
     (case sensor_store cache nm of
        Some v \<Rightarrow> (Inr v, cache)
      | None \<Rightarrow>
          (case find (\<lambda>(pattern, compute). pattern nm) (virtual cache) of
             None \<Rightarrow> (Inl (SensorLookupFailure nm), cache)
           | Some (pattern, compute) \<Rightarrow>
               (case compute (sensor_store cache) nm of
                  None \<Rightarrow> (Inl (SensorLookupFailure nm), cache)
                | Some v \<Rightarrow>
                    (Inr v, cache\<lparr>sensor_store := (sensor_store cache)(nm \<mapsto> v)\<rparr>))))"

text \<open>
  Modelled from the spec: \<^verbatim>\<open>SensorCache.get_with_fallback\<close> (katdal/sensordata.py is not
  among the sources). It tries each candidate name in order, returns the first that
  resolves, and fails with a lookup error for the logical sensor if none resolves.
\<close>

fun get_with_fallback ::
  "'v SensorCache \<Rightarrow> string \<Rightarrow> string list \<Rightarrow> (lookup_error + 'v) \<times> 'v SensorCache" where
  "get_with_fallback cache sensor_type [] = (Inl (SensorLookupFailure sensor_type), cache)"
| "get_with_fallback cache sensor_type (nm # names) =
     (case sensor_get cache nm of
        (Inr v, cache') \<Rightarrow> (Inr v, cache')
      | (Inl e, cache') \<Rightarrow> get_with_fallback cache' sensor_type names)"

text \<open>A name resolves in a cache when looking it up returns sensor data.\<close>

definition resolves :: "'v SensorCache \<Rightarrow> string \<Rightarrow> bool" where
  "resolves cache nm = (case fst (sensor_get cache nm) of Inr v \<Rightarrow> True | Inl e \<Rightarrow> False)"

text \<open>The property \<^verbatim>\<open>H5DataV3.temperature\<close> (katdal/h5datav3.py).\<close>

definition temperature :: "'v SensorCache \<Rightarrow> (lookup_error + 'v) \<times> 'v SensorCache" where
  "temperature cache =
     get_with_fallback cache ''temperature''
       [''Enviro/air_temperature'', ''TelescopeState/anc_weather_temperature'']"

text \<open>Scenario D of the specification: of the candidates only \<^verbatim>\<open>B\<close> resolves.\<close>

definition weather_cache :: "int SensorCache" where
  "weather_cache = \<lparr>sensor_store = [''B'' \<mapsto> 21], virtual = []\<rparr>"

section \<open>Categorical sensor data\<close>

text \<open>
  Modelled from the spec: \<^verbatim>\<open>CategoricalData\<close> (katdal/categorical.py is not among the
  sources), a piecewise-constant sequence over \<open>[0, N)\<close> as two parallel lists:
  \<open>events\<close> of length \<open>k + 1\<close> and \<open>k\<close> values, the \<open>i\<close>-th value holding on
  \<open>[events[i], events[i+1])\<close>.
\<close>

record 'a CategoricalData =
  events :: "nat list"
  run_values :: "'a list"

text \<open>
  Modelled from the spec: the invariant of \<^verbatim>\<open>CategoricalData\<close>: the events start at 0,
  are strictly increasing (so that the last is the length \<open>N\<close> of the domain), and there
  is one value less than there are events.
\<close>

definition valid :: "'a CategoricalData \<Rightarrow> bool" where
  "valid c =
     (events c \<noteq> [] \<and> hd (events c) = 0 \<and> sorted_wrt (<) (events c)
      \<and> length (run_values c) = length (events c) - 1)"

text \<open>
  Modelled from the spec: the nearest boundary of the reference events to an event, a
  tie going to the earlier boundary (\<^verbatim>\<open>align\<close> of katdal/categorical.py, which is not
  among the sources). Without reference events the event stays where it is.
\<close>

definition gap :: "nat \<Rightarrow> nat \<Rightarrow> nat" where
  "gap a b = (if a \<le> b then b - a else a - b)"

definition closer :: "nat \<Rightarrow> nat \<Rightarrow> nat \<Rightarrow> bool" where
  "closer e r best = (gap e r < gap e best \<or> (gap e r = gap e best \<and> r < best))"

fun nearest :: "nat \<Rightarrow> nat list \<Rightarrow> nat \<Rightarrow> nat" where
  "nearest e [] best = best"
| "nearest e (r # rs) best = nearest e rs (if closer e r best then r else best)"

definition snap :: "nat list \<Rightarrow> nat \<Rightarrow> nat" where
  "snap ref e = (case ref of [] \<Rightarrow> e | r # rs \<Rightarrow> nearest e rs r)"

text \<open>
  Modelled from the spec: the runs, each a start with its value, that are left after
  boundaries have moved (\<^verbatim>\<open>align\<close> of katdal/categorical.py, which is not among the
  sources): a run whose start is not before the start of the next run, or for the last
  run not before the end \<open>n\<close> of the domain, is empty and is dropped, so that the
  invariant holds after the mutation.
\<close>

fun nonempty_runs :: "(nat \<times> 'a) list \<Rightarrow> nat \<Rightarrow> (nat \<times> 'a) list" where
  "nonempty_runs [] n = []"
| "nonempty_runs [(s, v)] n = (if s < n then [(s, v)] else [])"
| "nonempty_runs ((s, v) # (s', v') # rs) n =
     (if s < s' then [(s, v)] else []) @ nonempty_runs ((s', v') # rs) n"

text \<open>
  Modelled from the spec: \<^verbatim>\<open>CategoricalData.align\<close> (katdal/categorical.py is not among
  the sources). Every internal boundary, that is every event but the first and the
  last, is snapped to the nearest boundary of the reference events, and the runs left
  empty are dropped.
\<close>

definition align :: "'a CategoricalData \<Rightarrow> nat list \<Rightarrow> 'a CategoricalData" where
  "align c ref =
     (case events c of
        [] \<Rightarrow> c
      | e0 # es \<Rightarrow>
          let n = last (events c);
              starts = e0 # map (snap ref) (butlast es);
              runs = nonempty_runs (zip starts (run_values c)) n
          in \<lparr>events = map fst runs @ [n], run_values = map snd runs\<rparr>)"

text \<open>The starts of runs that \<open>nonempty_runs\<close> turns into strictly increasing events.\<close>

definition good_starts :: "nat list \<Rightarrow> nat \<Rightarrow> bool" where
  "good_starts ss n = (sorted ss \<and> (\<forall>s\<in>set ss. \<forall>s'\<in>set ss. s < s' \<longrightarrow> s < n))"

text \<open>Scenario B of the specification.\<close>

definition scenario_b :: "string CategoricalData" where
  "scenario_b = \<lparr>events = [0, 3, 7, 10], run_values = [''slew'', ''track'', ''slew'']\<rparr>"

section \<open>Slicing and writing through a view\<close>

lemma slice_positions_unit:
  assumes "unit_step s" "0 \<le> start s" "start s \<le> stop s" "stop s \<le> int n"
  shows "slice_positions s n = [nat (start s)..<nat (stop s)]"
proof -
  have k: "step_of s = 1" using assms(1) by (auto simp: unit_step_def step_of_def)
  have a: "adjust 1 (int n) (start s) = (if start s = int n then int n else start s)"
    using assms by (simp add: adjust_def)
  have b: "adjust 1 (int n) (stop s) = stop s"
    using assms by (simp add: adjust_def)
  have "slice_positions s n = map (\<lambda>i. nat (start s + int i)) [0..<nat (stop s - start s)]"
    using assms by (auto simp: slice_positions_def k a b Let_def)
  also have "\<dots> = map (\<lambda>i. i + nat (start s)) [0..<nat (stop s - start s)]"
    using assms by (intro map_cong) (auto simp: nat_add_distrib)
  also have "\<dots> = [nat (start s)..<nat (stop s - start s) + nat (start s)]"
    by (simp add: map_add_upt)
  also have "nat (stop s - start s) + nat (start s) = nat (stop s)"
    using assms by linarith
  finally show ?thesis .
qed


lemma map_nth_upt:
  "b \<le> length xs \<Longrightarrow> map ((!) xs) [a..<b] = take (b - a) (drop a xs)"
  by (rule nth_equalityI) auto

lemma select_valid:
  assumes "unit_step s" "0 \<le> start s" "start s \<le> stop s" "stop s \<le> int (length xs)"
  shows "select (s # ss) (Axis xs)
           = Axis (map (select ss) (take (nat (stop s) - nat (start s)) (drop (nat (start s)) xs)))"
proof -
  have b: "nat (stop s) \<le> length xs" using assms by linarith
  have "map (\<lambda>p. select ss (xs ! p)) [nat (start s)..<nat (stop s)]
          = map (select ss) (map ((!) xs) [nat (start s)..<nat (stop s)])"
    by simp
  also have "\<dots> = map (select ss) (take (nat (stop s) - nat (start s)) (drop (nat (start s)) xs))"
    using b by (simp only: map_nth_upt)
  finally show ?thesis
    using assms by (simp add: slice_positions_unit)
qed


lemma in_bounds_Cons:
  "in_bounds bounds (s # ss) =
     (\<exists>n ns. bounds = n # ns \<and> 0 \<le> start s \<and> start s \<le> stop s \<and> stop s \<le> int n
        \<and> in_bounds ns ss)"
  by (auto simp: in_bounds_def list_all2_Cons1)

lemma in_bounds_Nil: "in_bounds bounds [] = (bounds = [])"
  by (simp add: in_bounds_def)

lemma has_shape_Cons:
  "has_shape (n # ns) d = (\<exists>xs. d = Axis xs \<and> length xs = n \<and> (\<forall>x\<in>set xs. has_shape ns x))"
  by (cases d) (auto simp: list_all_iff)









lemma view_shape_valid:
  "in_bounds bounds ss \<Longrightarrow> list_all unit_step ss \<Longrightarrow> view_shape ss bounds = slices_shape ss"
proof (induction ss arbitrary: bounds)
  case Nil
  then show ?case by (simp add: in_bounds_Nil slices_shape_def)
next
  case (Cons s ss)
  from Cons.prems(1) obtain n ns where bounds: "bounds = n # ns"
    and s: "0 \<le> start s" "start s \<le> stop s" "stop s \<le> int n" and ss: "in_bounds ns ss"
    by (auto simp: in_bounds_Cons)
  from Cons.prems(2) have u: "unit_step s" and us: "list_all unit_step ss" by simp_all
  have "length (slice_positions s n) = nat (stop s - start s)"
    using slice_positions_unit[OF u s] s by simp
  then show ?case using Cons.IH[OF ss us] bounds by (simp add: slices_shape_def)
qed


lemma item_at_select:
  "in_bounds bounds ss \<Longrightarrow> list_all unit_step ss \<Longrightarrow> has_shape bounds d
     \<Longrightarrow> list_all2 (\<lambda>i s. int i < stop s - start s) idx ss
     \<Longrightarrow> item_at idx (select ss d)
           = item_at (map (\<lambda>(i, s). i + nat (start s)) (zip idx ss)) d"
proof (induction ss arbitrary: bounds d idx)
  case Nil
  then show ?case by simp
next
  case (Cons s ss)
  from Cons.prems(1) obtain n ns where bounds: "bounds = n # ns"
    and s: "0 \<le> start s" "start s \<le> stop s" "stop s \<le> int n" and ss: "in_bounds ns ss"
    by (auto simp: in_bounds_Cons)
  from Cons.prems(2) have u: "unit_step s" and us: "list_all unit_step ss" by simp_all
  from Cons.prems(3) bounds obtain xs where d: "d = Axis xs" and lxs: "length xs = n"
    and rows: "\<forall>x\<in>set xs. has_shape ns x"
    by (auto simp: has_shape_Cons)
  from Cons.prems(4) obtain i "is" where idx: "idx = i # is"
    and i: "int i < stop s - start s"
    and rest: "list_all2 (\<lambda>i s. int i < stop s - start s) is ss"
    by (auto simp: list_all2_Cons2)
  let ?a = "nat (start s)" and ?b = "nat (stop s)"
  have sn: "stop s \<le> int (length xs)" using s(3) lxs by simp
  have sel: "select (s # ss) (Axis xs) = Axis (map (select ss) (take (?b - ?a) (drop ?a xs)))"
    by (rule select_valid[OF u s(1,2) sn])
  have i': "i < ?b - ?a" using i s by linarith
  have b: "?b \<le> length xs" using sn by linarith
  have ia: "i + ?a < length xs" using i' b by linarith
  have row: "take (?b - ?a) (drop ?a xs) ! i = xs ! (i + ?a)"
    using i' b by (simp add: add.commute)
  have "xs ! (i + ?a) \<in> set xs" using ia by simp
  then have "item_at is (select ss (xs ! (i + ?a)))
               = item_at (map (\<lambda>(i, s). i + nat (start s)) (zip is ss)) (xs ! (i + ?a))"
    using Cons.IH[OF ss us _ rest] rows by blast
  moreover have len: "length (map (select ss) (take (?b - ?a) (drop ?a xs))) = ?b - ?a"
    using b by simp
  moreover have "map (select ss) (take (?b - ?a) (drop ?a xs)) ! i = select ss (xs ! (i + ?a))"
    using i' b row by simp
  moreover have "map (\<lambda>(i, s). i + nat (start s)) (zip (i # is) (s # ss))
                   = (i + ?a) # map (\<lambda>(i, s). i + nat (start s)) (zip is ss)"
    by simp
  ultimately show ?case unfolding d idx sel using i' ia
    by (simp only: item_at.simps if_True)
qed

section \<open>The outcomes of get and put\<close>

lemma unit_step_nonzero: "list_all unit_step ss \<Longrightarrow> \<not> list_ex (\<lambda>s. step s = Some 0) ss"
  by (auto simp: list_all_iff list_ex_iff unit_step_def)

lemma in_bounds_length: "in_bounds bounds ss \<Longrightarrow> length ss = length bounds"
  by (simp add: in_bounds_def list_all2_lengthD)


lemma getitem_valid:
  "in_bounds (shape a) ss \<Longrightarrow> list_all unit_step ss
     \<Longrightarrow> getitem a ss = Inr \<lparr>shape = slices_shape ss, dtype = dtype a,
                             items = select ss (items a), is_scalar = (shape a = [])\<rparr>"
  by (simp add: getitem_def unit_step_nonzero in_bounds_length view_shape_valid)

lemma chunk_metadata_read_ok:
  "arrays st n = Some a \<Longrightarrow> in_bounds (shape a) ss \<Longrightarrow> list_all unit_step ss
     \<Longrightarrow> chunk_metadata st n ss dt None = Inr ((n, ss), slices_shape ss)"
  by (simp add: chunk_metadata_def)



lemma get_valid:
  assumes "arrays st n = Some a" "in_bounds (shape a) ss" "list_all unit_step ss"
  shows "get st n ss (dtype a)
           = Inr \<lparr>shape = slices_shape ss, dtype = dtype a, items = select ss (items a),
                  is_scalar = (shape a = [])\<rparr>"
  using assms
  by (simp add: get_def chunk_metadata_read_ok lookup_def getitem_valid standard_errors_def)













lemma put_Inl: "fst (put st n ss c) = Inl e \<Longrightarrow> snd (put st n ss c) = st"
  by (auto simp: put_def split: sum.splits option.splits prod.splits if_splits)


lemma scenario_facts:
  "arrays scenario_store ''vis'' = Some scenario_vis"
  "in_bounds (shape scenario_vis) scenario_slices"
  "list_all unit_step scenario_slices"
  "well_formed scenario_vis"
  "well_formed scenario_chunk"
  "shape scenario_chunk = slices_shape scenario_slices"
  "dtype scenario_chunk = dtype scenario_vis"
proof -
  show "arrays scenario_store ''vis'' = Some scenario_vis"
    unfolding arrays_def scenario_store_def DictChunkStore_init_def by simp code_simp
qed (simp_all add: scenario_vis_def
        scenario_slices_def scenario_chunk_def in_bounds_def unit_step_def well_formed_def
        slices_shape_def)

lemma scenario_getitem:
  "getitem scenario_vis scenario_slices
     = Inr \<lparr>shape = [2, 2, 1], dtype = ''int64'',
            items = Axis [Axis [Axis [Item 2], Axis [Item 3]],
                          Axis [Axis [Item 4], Axis [Item 5]]], is_scalar = False\<rparr>"
  by code_simp

section \<open>Claims about the chunk store\<close>




text \<open>
  C2 (get is direct indexing). For a stored array, in-bounds ranges of unit step and the
  stored dtype, \<^verbatim>\<open>get\<close> returns what indexing the stored array with the ranges
  returns: an array of the shape of the ranges whose element at \<open>idx\<close> is the element of
  the stored array at \<open>idx\<close> shifted by the starts of the ranges.
\<close>

theorem get_is_direct_indexing:
  assumes "arrays st array_name = Some ref" and "in_bounds (shape ref) slices"
    and "list_all unit_step slices" and "well_formed ref"
  shows "\<exists>sub. getitem ref slices = Inr sub
           \<and> get st array_name slices (dtype ref) = Inr sub
           \<and> shape sub = slices_shape slices
           \<and> (\<forall>idx. list_all2 (\<lambda>i s. int i < stop s - start s) idx slices \<longrightarrow>
                 item_at idx (items sub)
                   = item_at (map (\<lambda>(i, s). i + nat (start s)) (zip idx slices)) (items ref))"
proof -
  let ?sub = "\<lparr>shape = slices_shape slices, dtype = dtype ref,
                items = select slices (items ref), is_scalar = (shape ref = [])\<rparr>"
  have "getitem ref slices = Inr ?sub" by (rule getitem_valid[OF assms(2,3)])
  moreover have "get st array_name slices (dtype ref) = Inr ?sub"
    by (rule get_valid[OF assms(1-3)])
  moreover have "item_at idx (items ?sub)
      = item_at (map (\<lambda>(i, s). i + nat (start s)) (zip idx slices)) (items ref)"
    if "list_all2 (\<lambda>i s. int i < stop s - start s) idx slices" for idx
    using item_at_select[OF assms(2,3) _ that] assms(4) by (simp add: well_formed_def)
  ultimately show ?thesis by auto
qed

theorem get_is_direct_indexing_witness:
  "get scenario_store ''vis'' scenario_slices ''int64''
     = Inr \<lparr>shape = [2, 2, 1], dtype = ''int64'',
            items = Axis [Axis [Axis [Item 2], Axis [Item 3]],
                          Axis [Axis [Item 4], Axis [Item 5]]], is_scalar = False\<rparr>"
proof -
  from get_is_direct_indexing[OF scenario_facts(1-4)]
  obtain sub where "getitem scenario_vis scenario_slices = Inr sub"
    and "get scenario_store ''vis'' scenario_slices (dtype scenario_vis) = Inr sub"
    by blast
  then show ?thesis by (simp add: scenario_getitem) (simp add: scenario_vis_def)
qed

text \<open>
  C3 (BadChunk from get). \<^verbatim>\<open>get\<close> fails with BadChunk whenever a requested range has a
  step other than 1, and whenever the data the backend returned has a dtype other than
  the requested one; the error then names the chunk, the requested dtype and the actual
  dtype.
\<close>

theorem get_bad_chunk:
  "(\<not> list_all unit_step slices \<longrightarrow> (\<exists>m. get st array_name slices dt = Inl (BadChunk m)))
   \<and> (\<forall>chunk_name shp chunk.
         chunk_metadata st array_name slices (Some dt) None = Inr (chunk_name, shp)
         \<and> standard_errors (error_map st) chunk_name (lookup st array_name slices) = Inr chunk
         \<and> dtype chunk \<noteq> dt
         \<longrightarrow> get st array_name slices dt = Inl (BadChunk (DtypeDiffers chunk_name dt (dtype chunk))))"
  by (auto simp: get_def chunk_metadata_def)

theorem get_bad_chunk_witness:
  "get scenario_store ''vis''
       [\<lparr>start = 0, stop = 4, step = Some 2\<rparr>, \<lparr>start = 0, stop = 2, step = None\<rparr>,
        \<lparr>start = 0, stop = 1, step = None\<rparr>] ''int64''
     = Inl (BadChunk (NonUnitStep ''vis''
         [\<lparr>start = 0, stop = 4, step = Some 2\<rparr>, \<lparr>start = 0, stop = 2, step = None\<rparr>,
          \<lparr>start = 0, stop = 1, step = None\<rparr>]))
   \<and> get scenario_store ''vis'' scenario_slices ''float32''
     = Inl (BadChunk (DtypeDiffers (''vis'', scenario_slices) ''float32'' ''int64''))"
proof -
  let ?strided = "[\<lparr>start = 0, stop = 4, step = Some 2\<rparr>, \<lparr>start = 0, stop = 2, step = None\<rparr>,
                   \<lparr>start = 0, stop = 1, step = None\<rparr>]"
  have "\<not> list_all unit_step ?strided" by (simp add: unit_step_def)
  with get_bad_chunk[of ?strided scenario_store "''vis''" "''int64''"]
  obtain m where m: "get scenario_store ''vis'' ?strided ''int64'' = Inl (BadChunk m)" by blast
  have "get scenario_store ''vis'' ?strided ''int64''
          = Inl (BadChunk (NonUnitStep ''vis'' ?strided))"
    by (simp add: get_def chunk_metadata_def unit_step_def)
  moreover
  have cm: "chunk_metadata scenario_store ''vis'' scenario_slices (Some ''float32'') None
              = Inr ((''vis'', scenario_slices), slices_shape scenario_slices)"
    by (rule chunk_metadata_read_ok[OF scenario_facts(1-3)])
  have lk: "standard_errors (error_map scenario_store) (''vis'', scenario_slices)
              (lookup scenario_store ''vis'' scenario_slices)
            = Inr \<lparr>shape = slices_shape scenario_slices, dtype = dtype scenario_vis,
                   items = select scenario_slices (items scenario_vis),
                   is_scalar = (shape scenario_vis = [])\<rparr>"
    by (simp add: standard_errors_def lookup_def scenario_facts(1)
          getitem_valid[OF scenario_facts(2,3)])
  have "get scenario_store ''vis'' scenario_slices ''float32''
          = Inl (BadChunk (DtypeDiffers (''vis'', scenario_slices) ''float32'' ''int64''))"
    using get_bad_chunk[of scenario_slices scenario_store "''vis''" "''float32''"] cm lk
    by (simp add: scenario_vis_def)
  ultimately show ?thesis using m by simp
qed

text \<open>
  C4 (errors of put), as amended. With an array name the store does not know, \<^verbatim>\<open>put\<close>
  fails with ChunkNotFound (the KeyError of the backend, translated by the error map of
  \<^verbatim>\<open>DictChunkStore\<close>) provided the request passes the validation that comes first: every
  range has unit step and the chunk has the shape of the ranges. Whenever the chunk's
  shape differs from the shape of the ranges, \<^verbatim>\<open>put\<close> fails with BadChunk, whether the
  array is known or not. The store is unchanged in both cases.
\<close>

theorem put_errors:
  "(arrays st array_name = None \<and> map_of (error_map st) KeyError = Some ChunkNotFoundE
      \<and> list_all unit_step slices \<and> shape chunk = slices_shape slices
      \<longrightarrow> put st array_name slices chunk = (Inl (ChunkNotFound (array_name, slices) KeyError), st))
   \<and> (shape chunk \<noteq> slices_shape slices
      \<longrightarrow> (\<exists>m. put st array_name slices chunk = (Inl (BadChunk m), st)))
   \<and> map_of (error_map (DictChunkStore_init mem kwargs)) KeyError = Some ChunkNotFoundE
   \<and> map_of (error_map (DictChunkStore_init mem kwargs)) IndexError = Some ChunkNotFoundE"
  by (auto simp: put_def get_def chunk_metadata_def standard_errors_def lookup_def
           DictChunkStore_init_def split: option.splits)

theorem put_errors_witness:
  "put scenario_store ''nope'' [\<lparr>start = 0, stop = 1, step = None\<rparr>]
       \<lparr>shape = [1], dtype = ''int64'', items = Axis [Item 9]\<rparr>
     = (Inl (ChunkNotFound (''nope'', [\<lparr>start = 0, stop = 1, step = None\<rparr>]) KeyError),
        scenario_store)
   \<and> (\<exists>m. put scenario_store ''vis'' scenario_slices
              \<lparr>shape = [1], dtype = ''int64'', items = Axis [Item 9]\<rparr>
            = (Inl (BadChunk m), scenario_store))"
proof -
  let ?c = "\<lparr>shape = [1], dtype = ''int64'', items = Axis [Item (9::int)]\<rparr>"
  let ?r = "[\<lparr>start = 0, stop = 1, step = None\<rparr>]"
  have "arrays scenario_store ''nope'' = None"
    "map_of (error_map scenario_store) KeyError = Some ChunkNotFoundE"
    "list_all unit_step ?r" "shape ?c = slices_shape ?r"
    by (simp_all add: arrays_def scenario_store_def DictChunkStore_init_def unit_step_def
          slices_shape_def)
  with put_errors[of scenario_store "''nope''" ?r ?c]
  have "put scenario_store ''nope'' ?r ?c = (Inl (ChunkNotFound (''nope'', ?r) KeyError), scenario_store)"
    by blast
  moreover have "shape ?c \<noteq> slices_shape scenario_slices"
    by (simp add: slices_shape_def scenario_slices_def)
  with put_errors[of scenario_store "''vis''" scenario_slices ?c]
  have "\<exists>m. put scenario_store ''vis'' scenario_slices ?c = (Inl (BadChunk m), scenario_store)"
    by blast
  ultimately show ?thesis by blast
qed

text \<open>
  The claim as first stated fails: an unknown array name with a range of step 2 is
  rejected as a BadChunk by the validation, before the backend is asked for the array.
\<close>

theorem put_unknown_array_counterexample:
  "arrays scenario_store ''nope'' = None
   \<and> put scenario_store ''nope'' [\<lparr>start = 0, stop = 1, step = Some 2\<rparr>]
         \<lparr>shape = [1], dtype = ''int64'', items = Axis [Item 9]\<rparr>
       = (Inl (BadChunk (NonUnitStep ''nope'' [\<lparr>start = 0, stop = 1, step = Some 2\<rparr>])),
          scenario_store)"
  by (simp add: put_def chunk_metadata_def unit_step_def arrays_def scenario_store_def
        DictChunkStore_init_def)

text \<open>
  C5 (no partial mutation). Whenever \<^verbatim>\<open>put\<close> fails (with ChunkNotFound, BadChunk or
  any other error), the store after the call is the store before it, so that repeating
  the call gives the same outcome.
\<close>

theorem put_failure_leaves_store:
  assumes "fst (put st array_name slices chunk) = Inl e"
  shows "snd (put st array_name slices chunk) = st
         \<and> put (snd (put st array_name slices chunk)) array_name slices chunk
             = put st array_name slices chunk"
  using put_Inl[OF assms] by simp

theorem put_failure_leaves_store_witness:
  "snd (put scenario_store ''nope'' scenario_slices scenario_chunk) = scenario_store
   \<and> put (snd (put scenario_store ''nope'' scenario_slices scenario_chunk))
         ''nope'' scenario_slices scenario_chunk
       = put scenario_store ''nope'' scenario_slices scenario_chunk"
proof -
  have "fst (put scenario_store ''nope'' scenario_slices scenario_chunk)
          = Inl (ChunkNotFound (''nope'', scenario_slices) KeyError)"
    by (simp add: put_def get_def chunk_metadata_def standard_errors_def lookup_def
          scenario_facts arrays_def scenario_store_def DictChunkStore_init_def)
  from put_failure_leaves_store[OF this] show ?thesis .
qed






section \<open>Claims about the correlator data sources\<close>

lemma broadcast_rev_same: "broadcast_rev xs xs = Some xs"
  by (induction xs) auto

lemma broadcast_rev_same_length:
  "length xs = length ys \<Longrightarrow>
     broadcast_rev xs ys
       = (if list_all2 (\<lambda>a b. a = b \<or> a = 1 \<or> b = 1) xs ys
          then Some (map2 (\<lambda>a b. if a = 1 then b else a) xs ys) else None)"
  by (induction xs ys rule: list_induct2) auto

lemma broadcast_trailing_axis:
  assumes "length w = Suc (length c)"
  shows "broadcast_shapes w (c @ [1])
           = (if list_all2 (\<lambda>a b. a = b \<or> a = 1 \<or> b = 1) (butlast w) c
              then Some (map2 (\<lambda>a b. if a = 1 then b else a) (butlast w) c @ [last w])
              else None)"
proof -
  from assms obtain ws x where w: "w = ws @ [x]" by (cases w rule: rev_cases) auto
  with assms have l: "length ws = length c" by simp
  then have l': "length (rev ws) = length (rev c)" by simp
  have "broadcast_shapes w (c @ [1])
          = map_option rev (map_option ((#) x) (broadcast_rev (rev ws) (rev c)))"
    by (simp add: broadcast_shapes_def w)
  also have "\<dots> = (if list_all2 (\<lambda>a b. a = b \<or> a = 1 \<or> b = 1) ws c
              then Some (map2 (\<lambda>a b. if a = 1 then b else a) ws c @ [x]) else None)"
    unfolding broadcast_rev_same_length[OF l'] using l by (simp add: zip_rev rev_map)
  finally show ?thesis by (simp add: w)
qed

lemma broadcast_trailing_one:
  "s \<noteq> [] \<Longrightarrow> broadcast_shapes s (butlast s @ [1]) = Some s"
proof -
  assume "s \<noteq> []"
  then obtain x xs where r: "rev s = x # xs" by (cases "rev s") auto
  then have s: "s = rev xs @ [x]" by (metis rev.simps(2) rev_rev_ident)
  then have "rev (butlast s @ [1]) = 1 # xs" by simp
  then show ?thesis using r s by (simp add: broadcast_shapes_def broadcast_rev_same)
qed

lemma VisFlagsWeights_init_Inr:
  "VisFlagsWeights_init v f w nm = Inr obj \<Longrightarrow>
     obj = \<lparr>vis = v, flags = f, weights = w, name = nm\<rparr>
     \<and> la_shape v = la_shape f \<and> la_shape f = la_shape w"
  by (auto simp: VisFlagsWeights_init_def split: if_splits)

lemma ChunkStore_init_Inr:
  assumes "ChunkStoreVisFlagsWeights_init rt st base_name chunk_info = Inr cobj"
  shows "la_shape (vis cobj) = la_shape (flags cobj)
         \<and> la_shape (flags cobj) = la_shape (weights cobj)"
proof -
  from assms obtain v f ws obj where "VisFlagsWeights_init v f ws base_name = Inr obj"
    and c: "cobj = \<lparr>vis = vis obj, flags = flags obj, weights = weights obj,
                    name = name obj, store = st\<rparr>"
    by (auto simp: ChunkStoreVisFlagsWeights_init_def Let_def split: option.splits sum.splits)
  from VisFlagsWeights_init_Inr[OF this(1)] c show ?thesis by simp
qed

lemma ChunkStore_init_eq:
  assumes "chunk_info ''correlator_data'' = Some iv" and "chunk_info ''flags'' = Some ifl"
    and "chunk_info ''weights'' = Some iw" and "chunk_info ''weights_channel'' = Some ic"
  shows "ChunkStoreVisFlagsWeights_init rt st base_name chunk_info
           = (case broadcast_shapes (map sum_list (info_chunks iw))
                     (map sum_list (info_chunks ic) @ [1]) of
                None \<Rightarrow> Inl (CannotBroadcast (map sum_list (info_chunks iw))
                              (map sum_list (info_chunks ic) @ [1]))
              | Some ws \<Rightarrow>
                  if map sum_list (info_chunks iv) = map sum_list (info_chunks ifl)
                       \<and> map sum_list (info_chunks ifl) = ws
                  then Inr \<lparr>vis = \<lparr>la_shape = map sum_list (info_chunks iv),
                                   la_dtype = info_dtype iv\<rparr>,
                            flags = \<lparr>la_shape = map sum_list (info_chunks ifl),
                                     la_dtype = info_dtype ifl\<rparr>,
                            weights = \<lparr>la_shape = ws,
                                       la_dtype = rt (info_dtype iw) (info_dtype ic)\<rparr>,
                            name = base_name, store = st\<rparr>
                  else Inl (ShapesDiffer (map sum_list (info_chunks iv))
                              (map sum_list (info_chunks ifl)) ws))"
  using assms
  by (simp add: ChunkStoreVisFlagsWeights_init_def get_dask_array_def multiply_def
        new_trailing_axis_def VisFlagsWeights_init_def split: option.splits)

text \<open>
  C10 (shapes of visibilities, flags and weights). A \<^verbatim>\<open>VisFlagsWeights\<close> object that has
  been constructed holds the visibilities, flags and weights it was given, they have
  one shape, and that shape is its \<^verbatim>\<open>shape\<close> property; construction raises the
  ValueError when the three shapes differ. The same invariant holds of every
  \<^verbatim>\<open>ChunkStoreVisFlagsWeights\<close> object. Its constructor is determined by the chunk
  information: visibilities and flags are the handles of the store's arrays, the
  weights are the product of the handle of the weights with the handle of the channel
  weights under a new last axis, so their shape is the broadcast of the two shapes, and
  the construction fails when the shapes do not broadcast or when the three shapes then
  differ. Broadcasting a shape against a shape of one dimension less under a new last
  axis keeps the last dimension and combines the others pairwise; in particular weights
  of the shape of the visibilities, combined with channel weights of that shape without
  its last dimension, keep the shape of the visibilities.
\<close>

theorem vis_flags_weights_shapes:
  "(VisFlagsWeights_init v f w nm = Inr obj \<longrightarrow>
      obj = \<lparr>vis = v, flags = f, weights = w, name = nm\<rparr>
      \<and> la_shape (vis obj) = la_shape (flags obj) \<and> la_shape (flags obj) = la_shape (weights obj)
      \<and> vfw_shape obj = la_shape (vis obj))
   \<and> (\<not> (la_shape v = la_shape f \<and> la_shape f = la_shape w) \<longrightarrow>
        VisFlagsWeights_init v f w nm
          = Inl (ShapesDiffer (la_shape v) (la_shape f) (la_shape w)))
   \<and> (ChunkStoreVisFlagsWeights_init rt st base_name chunk_info = Inr cobj \<longrightarrow>
        la_shape (vis cobj) = la_shape (flags cobj)
        \<and> la_shape (flags cobj) = la_shape (weights cobj)
        \<and> vfw_shape cobj = la_shape (vis cobj))
   \<and> (chunk_info ''correlator_data'' = Some iv \<and> chunk_info ''flags'' = Some ifl
        \<and> chunk_info ''weights'' = Some iw \<and> chunk_info ''weights_channel'' = Some ic
        \<and> map sum_list (info_chunks iv) = sv \<and> map sum_list (info_chunks ifl) = sf
        \<and> map sum_list (info_chunks iw) = sw \<and> map sum_list (info_chunks ic) = sc \<longrightarrow>
        (broadcast_shapes sw (sc @ [1]) = None \<longrightarrow>
           ChunkStoreVisFlagsWeights_init rt st base_name chunk_info
             = Inl (CannotBroadcast sw (sc @ [1])))
        \<and> (\<forall>ws. broadcast_shapes sw (sc @ [1]) = Some ws \<longrightarrow>
              (\<not> (sv = sf \<and> sf = ws) \<longrightarrow>
                 ChunkStoreVisFlagsWeights_init rt st base_name chunk_info
                   = Inl (ShapesDiffer sv sf ws))
              \<and> (sv = sf \<and> sf = ws \<longrightarrow>
                   ChunkStoreVisFlagsWeights_init rt st base_name chunk_info
                     = Inr \<lparr>vis = \<lparr>la_shape = sv, la_dtype = info_dtype iv\<rparr>,
                            flags = \<lparr>la_shape = sf, la_dtype = info_dtype ifl\<rparr>,
                            weights = \<lparr>la_shape = ws,
                                       la_dtype = rt (info_dtype iw) (info_dtype ic)\<rparr>,
                            name = base_name, store = st\<rparr>)))
   \<and> (length sw' = Suc (length sc') \<longrightarrow>
        broadcast_shapes sw' (sc' @ [1])
          = (if list_all2 (\<lambda>a b. a = b \<or> a = 1 \<or> b = 1) (butlast sw') sc'
             then Some (map2 (\<lambda>a b. if a = 1 then b else a) (butlast sw') sc' @ [last sw'])
             else None))
   \<and> (chunk_info ''correlator_data'' = Some iv \<and> chunk_info ''flags'' = Some ifl
        \<and> chunk_info ''weights'' = Some iw \<and> chunk_info ''weights_channel'' = Some ic
        \<and> map sum_list (info_chunks iv) = s \<and> map sum_list (info_chunks ifl) = s
        \<and> map sum_list (info_chunks iw) = s \<and> map sum_list (info_chunks ic) = butlast s
        \<and> s \<noteq> [] \<longrightarrow>
        (\<exists>cobj. ChunkStoreVisFlagsWeights_init rt st base_name chunk_info = Inr cobj
           \<and> la_shape (weights cobj) = s \<and> vfw_shape cobj = s
           \<and> la_dtype (weights cobj) = rt (info_dtype iw) (info_dtype ic)))"
proof (intro conjI impI allI)
  assume "VisFlagsWeights_init v f w nm = Inr obj"
  from VisFlagsWeights_init_Inr[OF this]
  show "obj = \<lparr>vis = v, flags = f, weights = w, name = nm\<rparr>"
    "la_shape (vis obj) = la_shape (flags obj)"
    "la_shape (flags obj) = la_shape (weights obj)" by simp_all
next
  show "vfw_shape obj = la_shape (vis obj)" by (simp add: vfw_shape_def)
next
  assume "\<not> (la_shape v = la_shape f \<and> la_shape f = la_shape w)"
  then show "VisFlagsWeights_init v f w nm
               = Inl (ShapesDiffer (la_shape v) (la_shape f) (la_shape w))"
    by (simp add: VisFlagsWeights_init_def)
next
  assume "ChunkStoreVisFlagsWeights_init rt st base_name chunk_info = Inr cobj"
  from ChunkStore_init_Inr[OF this]
  show "la_shape (vis cobj) = la_shape (flags cobj)"
    "la_shape (flags cobj) = la_shape (weights cobj)" by simp_all
next
  show "vfw_shape cobj = la_shape (vis cobj)" by (simp add: vfw_shape_def)
next
  assume a: "chunk_info ''correlator_data'' = Some iv \<and> chunk_info ''flags'' = Some ifl
        \<and> chunk_info ''weights'' = Some iw \<and> chunk_info ''weights_channel'' = Some ic
        \<and> map sum_list (info_chunks iv) = sv \<and> map sum_list (info_chunks ifl) = sf
        \<and> map sum_list (info_chunks iw) = sw \<and> map sum_list (info_chunks ic) = sc"
    and b: "broadcast_shapes sw (sc @ [1]) = None"
  from a have e: "chunk_info ''correlator_data'' = Some iv" "chunk_info ''flags'' = Some ifl"
    "chunk_info ''weights'' = Some iw" "chunk_info ''weights_channel'' = Some ic"
    by simp_all
  show "ChunkStoreVisFlagsWeights_init rt st base_name chunk_info
          = Inl (CannotBroadcast sw (sc @ [1]))"
    unfolding ChunkStore_init_eq[OF e] using a b by simp
next
  fix ws
  assume a: "chunk_info ''correlator_data'' = Some iv \<and> chunk_info ''flags'' = Some ifl
        \<and> chunk_info ''weights'' = Some iw \<and> chunk_info ''weights_channel'' = Some ic
        \<and> map sum_list (info_chunks iv) = sv \<and> map sum_list (info_chunks ifl) = sf
        \<and> map sum_list (info_chunks iw) = sw \<and> map sum_list (info_chunks ic) = sc"
    and b: "broadcast_shapes sw (sc @ [1]) = Some ws"
    and n: "\<not> (sv = sf \<and> sf = ws)"
  from a have e: "chunk_info ''correlator_data'' = Some iv" "chunk_info ''flags'' = Some ifl"
    "chunk_info ''weights'' = Some iw" "chunk_info ''weights_channel'' = Some ic"
    by simp_all
  show "ChunkStoreVisFlagsWeights_init rt st base_name chunk_info
          = Inl (ShapesDiffer sv sf ws)"
    unfolding ChunkStore_init_eq[OF e] using a b n by auto
next
  fix ws
  assume a: "chunk_info ''correlator_data'' = Some iv \<and> chunk_info ''flags'' = Some ifl
        \<and> chunk_info ''weights'' = Some iw \<and> chunk_info ''weights_channel'' = Some ic
        \<and> map sum_list (info_chunks iv) = sv \<and> map sum_list (info_chunks ifl) = sf
        \<and> map sum_list (info_chunks iw) = sw \<and> map sum_list (info_chunks ic) = sc"
    and b: "broadcast_shapes sw (sc @ [1]) = Some ws"
    and n: "sv = sf \<and> sf = ws"
  from a have e: "chunk_info ''correlator_data'' = Some iv" "chunk_info ''flags'' = Some ifl"
    "chunk_info ''weights'' = Some iw" "chunk_info ''weights_channel'' = Some ic"
    by simp_all
  show "ChunkStoreVisFlagsWeights_init rt st base_name chunk_info
          = Inr \<lparr>vis = \<lparr>la_shape = sv, la_dtype = info_dtype iv\<rparr>,
                 flags = \<lparr>la_shape = sf, la_dtype = info_dtype ifl\<rparr>,
                 weights = \<lparr>la_shape = ws, la_dtype = rt (info_dtype iw) (info_dtype ic)\<rparr>,
                 name = base_name, store = st\<rparr>"
    unfolding ChunkStore_init_eq[OF e] using a b n by auto
next
  assume "length sw' = Suc (length sc')"
  then show "broadcast_shapes sw' (sc' @ [1])
          = (if list_all2 (\<lambda>a b. a = b \<or> a = 1 \<or> b = 1) (butlast sw') sc'
             then Some (map2 (\<lambda>a b. if a = 1 then b else a) (butlast sw') sc' @ [last sw'])
             else None)"
    by (rule broadcast_trailing_axis)
next
  assume a: "chunk_info ''correlator_data'' = Some iv \<and> chunk_info ''flags'' = Some ifl
        \<and> chunk_info ''weights'' = Some iw \<and> chunk_info ''weights_channel'' = Some ic
        \<and> map sum_list (info_chunks iv) = s \<and> map sum_list (info_chunks ifl) = s
        \<and> map sum_list (info_chunks iw) = s \<and> map sum_list (info_chunks ic) = butlast s
        \<and> s \<noteq> []"
  then have "s \<noteq> []" by simp
  then have b: "broadcast_shapes s (butlast s @ [1]) = Some s"
    by (rule broadcast_trailing_one)
  from a have e: "chunk_info ''correlator_data'' = Some iv" "chunk_info ''flags'' = Some ifl"
    "chunk_info ''weights'' = Some iw" "chunk_info ''weights_channel'' = Some ic"
    by simp_all
  show "\<exists>cobj. ChunkStoreVisFlagsWeights_init rt st base_name chunk_info = Inr cobj
           \<and> la_shape (weights cobj) = s \<and> vfw_shape cobj = s
           \<and> la_dtype (weights cobj) = rt (info_dtype iw) (info_dtype ic)"
    unfolding ChunkStore_init_eq[OF e] using a b by (simp add: vfw_shape_def)
qed

theorem vis_flags_weights_shapes_witness:
  "ChunkStoreVisFlagsWeights_init (\<lambda>a b. b) () ''1234567890_sdp_l0'' l0_chunk_info
     = Inr \<lparr>vis = \<lparr>la_shape = [4, 2, 3], la_dtype = ''complex64''\<rparr>,
            flags = \<lparr>la_shape = [4, 2, 3], la_dtype = ''uint8''\<rparr>,
            weights = \<lparr>la_shape = [4, 2, 3], la_dtype = ''float32''\<rparr>,
            name = ''1234567890_sdp_l0'', store = ()\<rparr>
   \<and> ChunkStoreVisFlagsWeights_init (\<lambda>a b. b) () ''1234567890_sdp_l0''
        (l0_chunk_info(''flags'' \<mapsto>
           \<lparr>info_dtype = ''uint8'', info_shape = [4, 2], info_chunks = [[2, 2], [2]]\<rparr>))
      = Inl (ShapesDiffer [4, 2, 3] [4, 2] [4, 2, 3])
   \<and> ChunkStoreVisFlagsWeights_init (\<lambda>a b. b) () ''1234567890_sdp_l0''
        (l0_chunk_info(''weights_channel'' \<mapsto>
           \<lparr>info_dtype = ''float32'', info_shape = [4, 5], info_chunks = [[2, 2], [5]]\<rparr>))
      = Inl (CannotBroadcast [4, 2, 3] [4, 5, 1])
   \<and> broadcast_shapes [4, 1, 3] ([4, 2] @ [1]) = Some [4, 2, 3]
   \<and> VisFlagsWeights_init \<lparr>la_shape = [4, 2, 3], la_dtype = ''complex64''\<rparr>
        \<lparr>la_shape = [4, 2, 3], la_dtype = ''uint8''\<rparr>
        \<lparr>la_shape = [4, 2], la_dtype = ''float32''\<rparr> ''custom''
      = Inl (ShapesDiffer [4, 2, 3] [4, 2, 3] [4, 2])"
proof -
  let ?e = "\<lparr>info_dtype = ''uint8'', info_shape = [4, 2, 3], info_chunks = [[2, 2], [2], [3]]\<rparr>"
  let ?ev = "\<lparr>info_dtype = ''complex64'', info_shape = [4, 2, 3],
               info_chunks = [[2, 2], [2], [3]]\<rparr>"
  let ?ec = "\<lparr>info_dtype = ''float32'', info_shape = [4, 2], info_chunks = [[2, 2], [2]]\<rparr>"
  let ?ef = "\<lparr>info_dtype = ''uint8'', info_shape = [4, 2], info_chunks = [[2, 2], [2]]\<rparr>"
  let ?ec5 = "\<lparr>info_dtype = ''float32'', info_shape = [4, 5], info_chunks = [[2, 2], [5]]\<rparr>"
  let ?v = "\<lparr>la_shape = [4, 2, 3], la_dtype = ''complex64''\<rparr>"
  let ?f = "\<lparr>la_shape = [4, 2, 3], la_dtype = ''uint8''\<rparr>"
  let ?w = "\<lparr>la_shape = [4, 2], la_dtype = ''float32''\<rparr>"
  have b1: "broadcast_shapes [4, 2, 3] ([4, 2] @ [1]) = Some [4, 2, 3]"
    using vis_flags_weights_shapes[where sw' = "[4, 2, 3]" and sc' = "[4, 2]",
        THEN conjunct2, THEN conjunct2, THEN conjunct2, THEN conjunct2, THEN conjunct1]
    by simp
  have b2: "broadcast_shapes [4, 1, 3] ([4, 2] @ [1]) = Some [4, 2, 3]"
    using vis_flags_weights_shapes[where sw' = "[4, 1, 3]" and sc' = "[4, 2]",
        THEN conjunct2, THEN conjunct2, THEN conjunct2, THEN conjunct2, THEN conjunct1]
    by simp
  have b3: "broadcast_shapes [4, 2, 3] ([4, 5] @ [1]) = None"
    using vis_flags_weights_shapes[where sw' = "[4, 2, 3]" and sc' = "[4, 5]",
        THEN conjunct2, THEN conjunct2, THEN conjunct2, THEN conjunct2, THEN conjunct1]
    by simp
  have c1: "ChunkStoreVisFlagsWeights_init (\<lambda>a b. b) () ''1234567890_sdp_l0'' l0_chunk_info
     = Inr \<lparr>vis = \<lparr>la_shape = [4, 2, 3], la_dtype = info_dtype ?ev\<rparr>,
            flags = \<lparr>la_shape = [4, 2, 3], la_dtype = info_dtype ?e\<rparr>,
            weights = \<lparr>la_shape = [4, 2, 3], la_dtype = (\<lambda>a b. b) (info_dtype ?e) (info_dtype ?ec)\<rparr>,
            name = ''1234567890_sdp_l0'', store = ()\<rparr>"
    by (rule vis_flags_weights_shapes[where chunk_info = l0_chunk_info and iv = ?ev
          and ifl = ?e and iw = ?e and ic = ?ec and sv = "[4, 2, 3]" and sf = "[4, 2, 3]"
          and sw = "[4, 2, 3]" and sc = "[4, 2]",
          THEN conjunct2, THEN conjunct2, THEN conjunct2, THEN conjunct1, THEN mp,
          THEN conjunct2, THEN spec, THEN mp, THEN conjunct2, THEN mp])
       (insert b1, simp_all add: l0_chunk_info_def)
  have c2: "ChunkStoreVisFlagsWeights_init (\<lambda>a b. b) () ''1234567890_sdp_l0''
              (l0_chunk_info(''flags'' \<mapsto> ?ef))
      = Inl (ShapesDiffer [4, 2, 3] [4, 2] [4, 2, 3])"
    by (rule vis_flags_weights_shapes[where chunk_info = "l0_chunk_info(''flags'' \<mapsto> ?ef)"
          and iv = ?ev and ifl = ?ef and iw = ?e and ic = ?ec and sv = "[4, 2, 3]"
          and sf = "[4, 2]" and sw = "[4, 2, 3]" and sc = "[4, 2]",
          THEN conjunct2, THEN conjunct2, THEN conjunct2, THEN conjunct1, THEN mp,
          THEN conjunct2, THEN spec, THEN mp, THEN conjunct1, THEN mp])
       (insert b1, simp_all add: l0_chunk_info_def)
  have c3: "ChunkStoreVisFlagsWeights_init (\<lambda>a b. b) () ''1234567890_sdp_l0''
              (l0_chunk_info(''weights_channel'' \<mapsto> ?ec5))
      = Inl (CannotBroadcast [4, 2, 3] ([4, 5] @ [1]))"
    by (rule vis_flags_weights_shapes[where
          chunk_info = "l0_chunk_info(''weights_channel'' \<mapsto> ?ec5)"
          and iv = ?ev and ifl = ?e and iw = ?e and ic = ?ec5 and sv = "[4, 2, 3]"
          and sf = "[4, 2, 3]" and sw = "[4, 2, 3]" and sc = "[4, 5]",
          THEN conjunct2, THEN conjunct2, THEN conjunct2, THEN conjunct1, THEN mp,
          THEN conjunct1, THEN mp])
       (insert b3, simp_all add: l0_chunk_info_def)
  have "VisFlagsWeights_init ?v ?f ?w ''custom''
          = Inl (ShapesDiffer (la_shape ?v) (la_shape ?f) (la_shape ?w))"
    by (rule vis_flags_weights_shapes[where v = ?v and f = ?f and w = ?w,
          THEN conjunct2, THEN conjunct1, THEN mp]) simp
  then have c4: "VisFlagsWeights_init ?v ?f ?w ''custom''
          = Inl (ShapesDiffer [4, 2, 3] [4, 2, 3] [4, 2])"
    by simp
  from c1 c2 c3 b2 c4 show ?thesis by simp
qed

section \<open>Claims about the weights of H5DataV3\<close>

lemma pred_nd_insert_axes: "pred_nd P d \<Longrightarrow> pred_nd P (insert_axes bs d)"
  by (induction bs d rule: insert_axes.induct) (auto simp: list_all_iff)

lemma pred_nd_ones: "pred_nd (\<lambda>x. x = 1) (map_nd (\<lambda>_. 1) d)"
  by (simp add: nd.pred_map comp_def nd.pred_True)

lemma has_shape_map_nd: "has_shape ns d \<Longrightarrow> has_shape ns (map_nd f d)"
  by (induction ns d rule: has_shape.induct) (auto simp: list_all_iff)

lemma has_shape_insert_axes:
  "insert_axes_shape bs ns = Some s \<Longrightarrow> has_shape ns d \<Longrightarrow> has_shape s (insert_axes bs d)"
proof (induction bs ns arbitrary: s d rule: insert_axes_shape.induct)
  case (1 ns)
  then show ?case by (cases d) auto
next
  case (2 bs ns)
  then show ?case by auto
next
  case (3 bs n ns)
  then show ?case by (cases d) (auto simp: list_all_iff)
next
  case (4 bs)
  then show ?case by simp
qed

lemma insert_axes_shape_Some:
  "length (filter Not bs) \<le> length ns \<Longrightarrow> \<exists>s. insert_axes_shape bs ns = Some s"
  by (induction bs ns rule: insert_axes_shape.induct) auto

lemma insert_axes_shape_None:
  "length ns < length (filter Not bs) \<Longrightarrow> insert_axes_shape bs ns = None"
  by (induction bs ns rule: insert_axes_shape.induct) auto

lemma insert_axes_shape_exact:
  "insert_axes_shape bs ns = Some s \<Longrightarrow>
     length s = length (filter id bs) + length ns
     \<and> (\<forall>k<length bs. bs ! k \<longrightarrow> s ! k = 1)
     \<and> map snd (filter (\<lambda>(b, n). \<not> b) (zip bs s)) @ drop (length bs) s = ns"
proof (induction bs ns arbitrary: s rule: insert_axes_shape.induct)
  case (1 ns)
  then show ?case by simp
next
  case (2 bs ns)
  then obtain s' where s': "insert_axes_shape bs ns = Some s'" and s: "s = 1 # s'" by auto
  from "2.IH"[OF s'] show ?case by (auto simp: s nth_Cons split: nat.splits)
next
  case (3 bs n ns)
  then obtain s' where s': "insert_axes_shape bs ns = Some s'" and s: "s = n # s'" by auto
  from "3.IH"[OF s'] show ?case by (auto simp: s nth_Cons split: nat.splits)
next
  case (4 bs)
  then show ?case by simp
qed

lemma filter_zip_map:
  "map snd (filter (\<lambda>(b, n). \<not> b) (zip (map f ks) s))
     = map snd (filter (\<lambda>(k, n). \<not> f k) (zip ks s))"
  by (induction ks arbitrary: s) (auto simp: zip_Cons1 split: list.splits)

lemma length_keep_3: "length (keep_3 keep) = 3"
  by (simp add: keep_3_def)

lemma weights_loop_unknown:
  "weights_loop [] ns (sel, lg) = (sel, lg @ map (\<lambda>n. NotLegitimateWeight n []) ns)"
  by (induction ns arbitrary: lg) auto

lemma weights_getitem_squeeze:
  "squeeze self \<Longrightarrow> weights_select self = []
     \<Longrightarrow> weights_getitem f32 self pulled keep = Inr (ones_like pulled ''float32'')"
  by (simp add: weights_getitem_def vislike_transforms_def weights_transform_def)

lemma weights_getitem_3dim:
  "\<not> squeeze self \<Longrightarrow> weights_select self = []
     \<Longrightarrow> weights_getitem f32 self pulled keep = force_3dim (ones_like pulled ''float32'') keep"
  by (simp add: weights_getitem_def vislike_transforms_def weights_transform_def
        split: sum.splits)

lemma force_3dim_Inr:
  "force_3dim d keep = Inr r \<Longrightarrow> pred_nd P (items d) \<Longrightarrow> pred_nd P (items r) \<and> dtype r = dtype d"
  by (auto simp: force_3dim_def Let_def pred_nd_insert_axes split: option.splits)

lemma force_3dim_shape:
  assumes "force_3dim d keep = Inr r"
  shows "length (shape r) = length (filter isscalar (keep_3 keep)) + length (shape d)"
    and "\<forall>k<3. isscalar (keep_3 keep ! k) \<longrightarrow> shape r ! k = 1"
    and "map snd (filter (\<lambda>(k, n). \<not> isscalar k) (zip (keep_3 keep) (shape r)))
           @ drop 3 (shape r) = shape d"
    and "well_formed d \<Longrightarrow> well_formed r"
proof -
  from assms obtain s where s: "insert_axes_shape (map isscalar (keep_3 keep)) (shape d) = Some s"
    and r: "r = \<lparr>shape = s, dtype = dtype d,
                 items = insert_axes (map isscalar (keep_3 keep)) (items d)\<rparr>"
    by (auto simp: force_3dim_def Let_def split: option.splits)
  note e = insert_axes_shape_exact[OF s]
  from e show "length (shape r) = length (filter isscalar (keep_3 keep)) + length (shape d)"
    by (simp add: r filter_map comp_def)
  from e show "\<forall>k<3. isscalar (keep_3 keep ! k) \<longrightarrow> shape r ! k = 1"
    by (simp add: r length_keep_3)
  from e show "map snd (filter (\<lambda>(k, n). \<not> isscalar k) (zip (keep_3 keep) (shape r)))
           @ drop 3 (shape r) = shape d"
    by (simp add: r length_keep_3 filter_zip_map)
  show "well_formed r" if "well_formed d"
    using has_shape_insert_axes[OF s] that by (simp add: well_formed_def r)
qed

lemma force_3dim_Some:
  "length (filter (\<lambda>k. \<not> isscalar k) (keep_3 keep)) \<le> length (shape d)
     \<Longrightarrow> \<exists>r. force_3dim d keep = Inr r"
proof -
  assume "length (filter (\<lambda>k. \<not> isscalar k) (keep_3 keep)) \<le> length (shape d)"
  then have "length (filter Not (map isscalar (keep_3 keep))) \<le> length (shape d)"
    by (simp add: filter_map comp_def)
  from insert_axes_shape_Some[OF this] show ?thesis
    by (auto simp: force_3dim_def Let_def)
qed

lemma force_3dim_None:
  "length (shape d) < length (filter (\<lambda>k. \<not> isscalar k) (keep_3 keep))
     \<Longrightarrow> force_3dim d keep = Inl IndexError"
proof -
  assume "length (shape d) < length (filter (\<lambda>k. \<not> isscalar k) (keep_3 keep))"
  then have "length (shape d) < length (filter Not (map isscalar (keep_3 keep)))"
    by (simp add: filter_map comp_def)
  from insert_axes_shape_None[OF this] show ?thesis
    by (simp add: force_3dim_def Let_def)
qed

lemma length_filter_keep_3:
  "length (filter isscalar (keep_3 keep)) + length (filter (\<lambda>k. \<not> isscalar k) (keep_3 keep)) = 3"
  using sum_length_filter_compl[of isscalar "keep_3 keep"] by (simp add: length_keep_3)

text \<open>
  C7 (default weights), as amended. With an empty weight selection the indexer of the
  weights returns, for whatever data is pulled from the file, an array of the constant
  1 and dtype float32. When the data set squeezes it has the shape of the pulled data.
  Otherwise it has that shape with the singleton dimensions restored: it exists exactly
  when the pulled data has a dimension for every one of the three selections that is
  not a scalar, it has a dimension of length 1 at every scalar selection, its other
  dimensions are those of the pulled data in order, and it has three dimensions when
  the pulled data has exactly one dimension for every selection that is not a scalar.
  The setter logs the warning that no valid weights were selected when it leaves the
  selection empty and the file knows a weight type. When the file knows no weight type
  the selection is always empty and the only warnings are those for the names asked
  for, one each.
\<close>

theorem weights_fallback:
  "(weights_select self = [] \<longrightarrow>
      (squeeze self \<longrightarrow>
         weights_getitem f32 self pulled keep = Inr (ones_like pulled ''float32'')
         \<and> shape (ones_like pulled ''float32'') = shape pulled
         \<and> (well_formed pulled \<longrightarrow> well_formed (ones_like pulled ''float32'')))
      \<and> (\<forall>r. weights_getitem f32 self pulled keep = Inr r \<longrightarrow>
             pred_nd (\<lambda>x. x = 1) (items r) \<and> dtype r = ''float32'')
      \<and> (length (filter (\<lambda>k. \<not> isscalar k) (keep_3 keep)) \<le> length (shape pulled) \<longrightarrow>
           (\<exists>r. weights_getitem f32 self pulled keep = Inr r))
      \<and> (\<not> squeeze self \<longrightarrow>
           (length (shape pulled) < length (filter (\<lambda>k. \<not> isscalar k) (keep_3 keep)) \<longrightarrow>
              weights_getitem f32 self pulled keep = Inl IndexError)
           \<and> (\<forall>r. weights_getitem f32 self pulled keep = Inr r \<longrightarrow>
                 length (shape r) = length (filter isscalar (keep_3 keep)) + length (shape pulled)
                 \<and> (length (filter (\<lambda>k. \<not> isscalar k) (keep_3 keep)) = length (shape pulled)
                      \<longrightarrow> length (shape r) = 3)
                 \<and> (\<forall>k<3. isscalar (keep_3 keep ! k) \<longrightarrow> shape r ! k = 1)
                 \<and> map snd (filter (\<lambda>(k, n). \<not> isscalar k) (zip (keep_3 keep) (shape r)))
                     @ drop 3 (shape r) = shape pulled
                 \<and> (well_formed pulled \<longrightarrow> well_formed r))))
   \<and> (known_weights h \<noteq> [] \<and> weights_select (set_weights_keep h names) = [] \<longrightarrow>
        (\<exists>lg. logged (set_weights_keep h names) = lg @ [NoValidWeights]))
   \<and> (known_weights h = [] \<longrightarrow>
        weights_select (set_weights_keep h names) = []
        \<and> logged (set_weights_keep h names)
            = logged h @ map (\<lambda>n. NotLegitimateWeight n []) (requested_names [] names))"
proof -
  let ?ones = "ones_like pulled ''float32''"
  have ones: "pred_nd (\<lambda>x. x = 1) (items ?ones)"
    by (simp add: ones_like_def pred_nd_ones)
  have sh: "shape ?ones = shape pulled" "dtype ?ones = ''float32''"
    by (simp_all add: ones_like_def)
  have wf: "well_formed ?ones" if "well_formed pulled"
    using that by (simp add: well_formed_def ones_like_def has_shape_map_nd)
  have a1: "weights_getitem f32 self pulled keep = Inr ?ones"
    if "weights_select self = []" "squeeze self"
    using that by (simp add: weights_getitem_squeeze)
  have a2: "pred_nd (\<lambda>x. x = 1) (items r) \<and> dtype r = ''float32''"
    if e: "weights_select self = []" and r: "weights_getitem f32 self pulled keep = Inr r" for r
  proof (cases "squeeze self")
    case True
    with e r have "r = ?ones" by (simp add: weights_getitem_squeeze)
    then show ?thesis using ones sh by simp
  next
    case False
    with e r have "force_3dim ?ones keep = Inr r" by (simp add: weights_getitem_3dim)
    from force_3dim_Inr[OF this ones] show ?thesis by (simp add: sh)
  qed
  have a3: "\<exists>r. weights_getitem f32 self pulled keep = Inr r"
    if e: "weights_select self = []"
      and l: "length (filter (\<lambda>k. \<not> isscalar k) (keep_3 keep)) \<le> length (shape pulled)"
  proof (cases "squeeze self")
    case True
    then show ?thesis using e by (simp add: weights_getitem_squeeze)
  next
    case False
    from l have "length (filter (\<lambda>k. \<not> isscalar k) (keep_3 keep)) \<le> length (shape ?ones)"
      by (simp add: sh)
    from force_3dim_Some[OF this] show ?thesis using False e
      by (simp add: weights_getitem_3dim)
  qed
  have a4: "weights_getitem f32 self pulled keep = Inl IndexError"
    if e: "weights_select self = []" and n: "\<not> squeeze self"
      and l: "length (shape pulled) < length (filter (\<lambda>k. \<not> isscalar k) (keep_3 keep))"
  proof -
    from l have "length (shape ?ones) < length (filter (\<lambda>k. \<not> isscalar k) (keep_3 keep))"
      by (simp add: sh)
    from force_3dim_None[OF this] show ?thesis using n e by (simp add: weights_getitem_3dim)
  qed
  have a5: "length (shape r) = length (filter isscalar (keep_3 keep)) + length (shape pulled)
            \<and> (length (filter (\<lambda>k. \<not> isscalar k) (keep_3 keep)) = length (shape pulled)
                 \<longrightarrow> length (shape r) = 3)
            \<and> (\<forall>k<3. isscalar (keep_3 keep ! k) \<longrightarrow> shape r ! k = 1)
            \<and> map snd (filter (\<lambda>(k, n). \<not> isscalar k) (zip (keep_3 keep) (shape r)))
                @ drop 3 (shape r) = shape pulled
            \<and> (well_formed pulled \<longrightarrow> well_formed r)"
    if e: "weights_select self = []" and n: "\<not> squeeze self"
      and r: "weights_getitem f32 self pulled keep = Inr r" for r
  proof -
    from e n r have f: "force_3dim ?ones keep = Inr r" by (simp add: weights_getitem_3dim)
    note s = force_3dim_shape[OF f]
    have l: "length (shape r) = length (filter isscalar (keep_3 keep)) + length (shape pulled)"
      using s(1) by (simp add: sh)
    have "length (shape r) = 3"
      if "length (filter (\<lambda>k. \<not> isscalar k) (keep_3 keep)) = length (shape pulled)"
      using l that length_filter_keep_3[of keep] by simp
    moreover have "well_formed r" if "well_formed pulled"
      by (rule s(4)) (rule wf[OF that])
    ultimately show ?thesis using l s(2) s(3) by (simp add: sh)
  qed
  have b: "\<exists>lg. logged (set_weights_keep h names) = lg @ [NoValidWeights]"
    if "known_weights h \<noteq> [] \<and> weights_select (set_weights_keep h names) = []"
    using that by (auto simp: set_weights_keep_def Let_def split: prod.splits)
  have c: "weights_select (set_weights_keep h names) = []
        \<and> logged (set_weights_keep h names)
            = logged h @ map (\<lambda>n. NotLegitimateWeight n []) (requested_names [] names)"
    if "known_weights h = []"
    using that by (simp add: set_weights_keep_def Let_def weights_loop_unknown)
  show ?thesis
  proof (intro conjI impI allI)
    show "shape ?ones = shape pulled" by (rule sh)
  qed (use a1 a2 a3 a4 a5 b c wf in \<open>blast+\<close>)
qed

theorem weights_fallback_witness:
  "logged (set_weights_keep h5_precision (Str ''bogus''))
     = [NotLegitimateWeight ''bogus'' [''precision''], NoValidWeights]
   \<and> weights_getitem id (set_weights_keep h5_precision (Str ''bogus'')) some_weights
        [IntIndex 0]
       = Inr \<lparr>shape = [1, 1, 2], dtype = ''float32'',
              items = Axis [Axis [Axis [Item 1, Item 1]]]\<rparr>
   \<and> (\<exists>r. weights_getitem id (set_weights_keep h5_precision (Str ''bogus'')) some_weights
              [IntIndex 0] = Inr r
          \<and> pred_nd (\<lambda>x. x = 1) (items r) \<and> dtype r = ''float32''
          \<and> length (shape r) = 3 \<and> shape r ! 0 = 1 \<and> well_formed r)
   \<and> weights_getitem id (set_weights_keep h5_precision (Str ''bogus'')) some_weights
        [IntIndex 0, IntIndex 0, IntIndex 0, IntIndex 0] = Inr
         \<lparr>shape = [1, 1, 1, 1, 2], dtype = ''float32'',
              items = Axis [Axis [Axis [Axis [Axis [Item 1, Item 1]]]]]\<rparr>
   \<and> weights_getitem id (set_weights_keep h5_precision (Str ''bogus''))
        \<lparr>shape = [], dtype = ''float32'', items = Item 3\<rparr> [IntIndex 0, IntIndex 0]
       = Inl IndexError
   \<and> weights_getitem id h5_no_weight_types some_weights [] = Inr (ones_like some_weights ''float32'')
   \<and> logged (set_weights_keep h5_no_weight_types (Seq [''precision'']))
       = [NotLegitimateWeight ''precision'' []]"
proof -
  let ?h = "set_weights_keep h5_precision (Str ''bogus'')"
  let ?k = "[IntIndex 0]"
  have sel: "weights_select ?h = []" and known: "known_weights h5_precision \<noteq> []"
    and nsq: "\<not> squeeze ?h"
    by (simp_all add: set_weights_keep_def h5_precision_def known_weights_def
          requested_names_def)
  have k3: "keep_3 ?k = [IntIndex 0, SliceIndex None None None, SliceIndex None None None]"
    by (simp add: keep_3_def numeral_3_eq_3)
  have wfs: "well_formed some_weights" by (simp add: well_formed_def some_weights_def)
  note t = weights_fallback[where self = "?h" and h = h5_precision and names = "Str ''bogus''"
      and pulled = some_weights and keep = ?k and ?f32.0 = id]
  note t1 = t[THEN conjunct1, THEN mp, OF sel]
  from t[THEN conjunct2, THEN conjunct1, THEN mp] known sel
  obtain lg where "logged ?h = lg @ [NoValidWeights]" by blast
  have lg: "logged ?h = [NotLegitimateWeight ''bogus'' [''precision''], NoValidWeights]"
    by (simp add: set_weights_keep_def h5_precision_def known_weights_def requested_names_def)
  have le: "length (filter (\<lambda>k. \<not> isscalar k) (keep_3 ?k)) = length (shape some_weights)"
    by (simp add: some_weights_def k3)
  from t1[THEN conjunct2, THEN conjunct2, THEN conjunct1, THEN mp] le
  obtain r where r: "weights_getitem id ?h some_weights ?k = Inr r" by auto
  from t1[THEN conjunct2, THEN conjunct1, rule_format, OF r]
  have p: "pred_nd (\<lambda>x. x = 1) (items r)" "dtype r = ''float32''" by simp_all
  note s = t1[THEN conjunct2, THEN conjunct2, THEN conjunct2, THEN mp, OF nsq,
      THEN conjunct2, rule_format, OF r]
  from s le have l3: "length (shape r) = 3" by blast
  from s have "\<forall>k<3. isscalar (keep_3 ?k ! k) \<longrightarrow> shape r ! k = 1" by blast
  then have s0: "shape r ! 0 = 1" by (simp add: k3)
  from s wfs have wr: "well_formed r" by blast
  have ex: "\<exists>r. weights_getitem id ?h some_weights ?k = Inr r
          \<and> pred_nd (\<lambda>x. x = 1) (items r) \<and> dtype r = ''float32''
          \<and> length (shape r) = 3 \<and> shape r ! 0 = 1 \<and> well_formed r"
    by (intro exI[of _ r] conjI r p l3 s0 wr)
  have v: "weights_getitem id ?h some_weights ?k
       = Inr \<lparr>shape = [1, 1, 2], dtype = ''float32'',
              items = Axis [Axis [Axis [Item 1, Item 1]]]\<rparr>"
    by (simp add: weights_getitem_3dim[OF nsq sel] force_3dim_def k3 ones_like_def
          some_weights_def)
  have v4: "weights_getitem id ?h some_weights [IntIndex 0, IntIndex 0, IntIndex 0, IntIndex 0]
       = Inr \<lparr>shape = [1, 1, 1, 1, 2], dtype = ''float32'',
              items = Axis [Axis [Axis [Axis [Axis [Item 1, Item 1]]]]]\<rparr>"
    by (simp add: weights_getitem_3dim[OF nsq sel] force_3dim_def keep_3_def numeral_3_eq_3
          ones_like_def some_weights_def)
  have "weights_getitem id ?h \<lparr>shape = [], dtype = ''float32'', items = Item 3\<rparr>
          [IntIndex 0, IntIndex 0] = Inl IndexError"
    by (rule weights_fallback[where self = "?h" and ?f32.0 = id
          and pulled = "\<lparr>shape = [], dtype = ''float32'', items = Item 3\<rparr>"
          and keep = "[IntIndex 0, IntIndex 0]",
          THEN conjunct1, THEN mp, OF sel, THEN conjunct2, THEN conjunct2, THEN conjunct2,
          THEN mp, OF nsq, THEN conjunct1, THEN mp])
       (simp add: keep_3_def numeral_3_eq_3)
  note ie = this
  have s0: "weights_select h5_no_weight_types = []" "squeeze h5_no_weight_types"
    by (simp_all add: h5_no_weight_types_def)
  have sq: "weights_getitem id h5_no_weight_types some_weights []
              = Inr (ones_like some_weights ''float32'')"
    by (rule weights_fallback[where self = h5_no_weight_types and pulled = some_weights
        and keep = "[]" and ?f32.0 = id, THEN conjunct1, THEN mp, OF s0(1), THEN conjunct1,
        THEN mp, OF s0(2), THEN conjunct1])
  have "known_weights h5_no_weight_types = []"
    by (simp add: h5_no_weight_types_def known_weights_def)
  with weights_fallback[where h = h5_no_weight_types and names = "Seq [''precision'']",
      THEN conjunct2, THEN conjunct2]
  have "logged (set_weights_keep h5_no_weight_types (Seq [''precision'']))
          = logged h5_no_weight_types
            @ map (\<lambda>n. NotLegitimateWeight n []) (requested_names [] (Seq [''precision'']))"
    by blast
  then have l0: "logged (set_weights_keep h5_no_weight_types (Seq [''precision'']))
       = [NotLegitimateWeight ''precision'' []]"
    by (simp add: h5_no_weight_types_def requested_names_def)
  from lg v ex v4 ie sq l0 show ?thesis by (intro conjI)
qed

text \<open>
  The claim as first stated fails: for a file whose weight description table is empty,
  selecting \<^verbatim>\<open>'all'\<close> weights leaves the selection empty and sets every weight to 1,
  and nothing is logged.
\<close>

theorem silent_fallback_counterexample:
  "weights_select (set_weights_keep h5_no_weight_types (Str ''all'')) = []
   \<and> logged (set_weights_keep h5_no_weight_types (Str ''all'')) = []
   \<and> weights_getitem id (set_weights_keep h5_no_weight_types (Str ''all'')) some_weights []
       = Inr \<lparr>shape = [1, 2], dtype = ''float32'', items = Axis [Axis [Item 1, Item 1]]\<rparr>"
  by (simp add: set_weights_keep_def h5_no_weight_types_def known_weights_def
        requested_names_def weights_getitem_def vislike_transforms_def weights_transform_def
        ones_like_def some_weights_def)

section \<open>Claims about the sensor cache\<close>

lemma sensor_get_unresolved:
  "\<not> resolves cache nm \<Longrightarrow> \<exists>e. sensor_get cache nm = (Inl e, cache)"
  by (auto simp: resolves_def sensor_get_def split: option.splits prod.splits)

lemma sensor_get_resolved:
  "resolves cache nm \<Longrightarrow> \<exists>v cache'. sensor_get cache nm = (Inr v, cache')"
  by (cases "sensor_get cache nm") (auto simp: resolves_def split: sum.splits)

lemma get_with_fallback_first:
  "\<forall>n\<in>set pre. \<not> resolves cache n \<Longrightarrow> resolves cache nm
     \<Longrightarrow> get_with_fallback cache t (pre @ nm # post) = sensor_get cache nm"
proof (induction pre)
  case Nil
  from sensor_get_resolved[OF Nil(2)] show ?case by auto
next
  case (Cons a pre)
  then have "\<not> resolves cache a" by simp
  from sensor_get_unresolved[OF this] Cons show ?case by auto
qed

lemma get_with_fallback_none:
  "\<forall>n\<in>set names. \<not> resolves cache n
     \<Longrightarrow> get_with_fallback cache t names = (Inl (SensorLookupFailure t), cache)"
proof (induction names)
  case Nil
  then show ?case by simp
next
  case (Cons a names)
  then have "\<not> resolves cache a" by simp
  from sensor_get_unresolved[OF this] Cons show ?case by auto
qed

text \<open>
  C8 (fallback order). \<^verbatim>\<open>get_with_fallback\<close> returns what looking up the first
  candidate that resolves returns, which is sensor data, and fails with the lookup
  error of the logical sensor when no candidate resolves.
\<close>

theorem get_with_fallback_order:
  "(i < length names \<and> (\<forall>j<i. \<not> resolves cache (names ! j)) \<and> resolves cache (names ! i)
      \<longrightarrow> get_with_fallback cache sensor_type names = sensor_get cache (names ! i)
          \<and> (\<exists>v cache'. get_with_fallback cache sensor_type names = (Inr v, cache')))
   \<and> ((\<forall>n\<in>set names. \<not> resolves cache n)
      \<longrightarrow> get_with_fallback cache sensor_type names
            = (Inl (SensorLookupFailure sensor_type), cache))"
proof (intro conjI impI)
  assume a: "i < length names \<and> (\<forall>j<i. \<not> resolves cache (names ! j))
               \<and> resolves cache (names ! i)"
  then have split: "names = take i names @ names ! i # drop (Suc i) names"
    by (simp add: id_take_nth_drop)
  have "\<forall>n\<in>set (take i names). \<not> resolves cache n"
    using a by (auto simp: in_set_conv_nth)
  from get_with_fallback_first[OF this, of "names ! i" sensor_type "drop (Suc i) names"] a split
  show g: "get_with_fallback cache sensor_type names = sensor_get cache (names ! i)" by simp
  from a sensor_get_resolved[of cache "names ! i"] g
  show "\<exists>v cache'. get_with_fallback cache sensor_type names = (Inr v, cache')" by simp
next
  assume "\<forall>n\<in>set names. \<not> resolves cache n"
  then show "get_with_fallback cache sensor_type names
               = (Inl (SensorLookupFailure sensor_type), cache)"
    by (rule get_with_fallback_none)
qed

theorem get_with_fallback_order_witness:
  "get_with_fallback weather_cache ''temperature'' [''A'', ''B''] = (Inr 21, weather_cache)
   \<and> get_with_fallback weather_cache ''temperature'' [''A'', ''C'']
       = (Inl (SensorLookupFailure ''temperature''), weather_cache)"
proof -
  have r: "\<not> resolves weather_cache ''A''" "resolves weather_cache ''B''"
    "\<not> resolves weather_cache ''C''"
    by (simp_all add: resolves_def sensor_get_def weather_cache_def)
  have "get_with_fallback weather_cache ''temperature'' [''A'', ''B'']
          = sensor_get weather_cache ([''A'', ''B''] ! 1)"
    by (rule get_with_fallback_order[where i = 1 and names = "[''A'', ''B'']",
          THEN conjunct1, THEN mp, THEN conjunct1]) (simp add: r)
  then have "get_with_fallback weather_cache ''temperature'' [''A'', ''B'']
               = (Inr 21, weather_cache)"
    by (simp add: sensor_get_def weather_cache_def)
  moreover have "get_with_fallback weather_cache ''temperature'' [''A'', ''C'']
       = (Inl (SensorLookupFailure ''temperature''), weather_cache)"
    by (rule get_with_fallback_order[THEN conjunct2, THEN mp]) (simp add: r)
  ultimately show ?thesis by (rule conjI)
qed

section \<open>Claims about categorical data\<close>

lemma gap_zero [simp]: "gap e e = 0" "(gap e r = 0) = (r = e)"
  by (auto simp: gap_def)

lemma nearest_in: "nearest e rs b \<in> set (b # rs)"
  by (induction rs arbitrary: b) (auto split: if_splits)

lemma nearest_best:
  "r \<in> set (b # rs) \<Longrightarrow> \<not> closer e r (nearest e rs b)"
proof (induction rs arbitrary: b r)
  case Nil
  then show ?case by (simp add: closer_def)
next
  case (Cons x rs)
  let ?b = "if closer e x b then x else b"
  have IH: "\<not> closer e r (nearest e rs ?b)" if "r \<in> set (?b # rs)" for r
    using Cons.IH[OF that] .
  have self: "\<not> closer e ?b (nearest e rs ?b)" by (rule IH) simp
  show ?case
  proof (cases "r \<in> set rs")
    case True
    then show ?thesis using IH[of r] by simp
  next
    case False
    then have "r = b \<or> r = x" using Cons.prems by auto
    then have "\<not> closer e r ?b \<or> r = ?b" by (auto simp: closer_def)
    then show ?thesis using self by (auto simp: closer_def)
  qed
qed

lemma snap_in: "ref \<noteq> [] \<Longrightarrow> snap ref e \<in> set ref"
  using nearest_in by (cases ref) (auto simp: snap_def)

lemma snap_best: "r \<in> set ref \<Longrightarrow> \<not> closer e r (snap ref e)"
  using nearest_best by (cases ref) (auto simp: snap_def simp del: nearest.simps)

lemma snap_fixed: "r \<in> set ref \<Longrightarrow> snap ref r = r"
  using snap_best[of r ref r] by (auto simp: closer_def)

lemma snap_snap: "snap ref (snap ref e) = snap ref e"
proof (cases ref)
  case Nil
  then show ?thesis by (simp add: snap_def)
next
  case (Cons a list)
  then have "ref \<noteq> []" by simp
  then have "snap ref e \<in> set ref" by (rule snap_in)
  then show ?thesis by (rule snap_fixed)
qed

lemma snap_mono:
  assumes le: "e \<le> e'"
  shows "snap ref e \<le> snap ref e'"
proof (cases "ref = []")
  case True
  then show ?thesis using le by (simp add: snap_def)
next
  case False
  then have in1: "snap ref e \<in> set ref" and in2: "snap ref e' \<in> set ref"
    by (simp_all add: snap_in)
  show ?thesis
  proof (rule ccontr)
    assume "\<not> snap ref e \<le> snap ref e'"
    then have lt: "snap ref e' < snap ref e" by simp
    from snap_best[OF in2, of e] snap_best[OF in1, of e'] lt le
    show False by (auto simp: closer_def gap_def split: if_splits)
  qed
qed

lemma snap_below:
  "r \<in> set ref \<Longrightarrow> r < snap ref e \<Longrightarrow> r < e"
  using snap_best[of r ref e] by (auto simp: closer_def gap_def split: if_splits)

lemma nonempty_runs_subset: "set (nonempty_runs ps n) \<subseteq> set ps"
  by (induction ps n rule: nonempty_runs.induct) auto

lemma set_tl_subset: "set (tl xs) \<subseteq> set xs"
  by (cases xs) auto

lemma nonempty_runs_tl: "set (tl (nonempty_runs (p # ps) n)) \<subseteq> set ps"
proof (cases ps)
  case Nil
  then show ?thesis by (cases p) auto
next
  case (Cons q qs)
  obtain s v s' v' where p: "p = (s, v)" and q: "q = (s', v')" by (cases p, cases q) auto
  let ?tail = "nonempty_runs ((s', v') # qs) n"
  have sub: "set ?tail \<subseteq> set ps" using nonempty_runs_subset[of "(s', v') # qs" n] Cons q by simp
  show ?thesis
  proof (cases "s < s'")
    case True
    then have "tl (nonempty_runs (p # ps) n) = ?tail" using Cons p q by simp
    then show ?thesis using sub by simp
  next
    case False
    then have "nonempty_runs (p # ps) n = ?tail" using Cons p q by simp
    then show ?thesis using sub set_tl_subset[of ?tail] by auto
  qed
qed

lemma nonempty_runs_fixed:
  "sorted_wrt (<) (map fst ps @ [n]) \<Longrightarrow> nonempty_runs ps n = ps"
  by (induction ps n rule: nonempty_runs.induct) auto

lemma good_starts_Cons: "good_starts (s # ss) n \<Longrightarrow> good_starts ss n"
  by (auto simp: good_starts_def)

lemma nonempty_runs_sorted:
  "good_starts (map fst ps) n \<Longrightarrow> sorted_wrt (<) (map fst (nonempty_runs ps n) @ [n])"
proof (induction ps n rule: nonempty_runs.induct)
  case (1 n)
  then show ?case by simp
next
  case (2 s v n)
  then show ?case by simp
next
  case (3 s v s' v' rs n)
  let ?tail = "nonempty_runs ((s', v') # rs) n"
  have g: "good_starts (map fst ((s', v') # rs)) n"
    using "3.prems" good_starts_Cons by simp
  have IH: "sorted_wrt (<) (map fst ?tail @ [n])" by (rule "3.IH"[OF g])
  show ?case
  proof (cases "s < s'")
    case False
    then show ?thesis using IH by simp
  next
    case True
    have sn: "s < n" using "3.prems" True by (auto simp: good_starts_def)
    have "s < x" if "x \<in> set (map fst ?tail)" for x
    proof -
      from that nonempty_runs_subset[of "(s', v') # rs" n]
      have "x \<in> set (map fst ((s', v') # rs))" by auto
      then have "s' \<le> x" using "3.prems" by (auto simp: good_starts_def)
      then show ?thesis using True by simp
    qed
    then show ?thesis using True IH sn by (auto simp: sorted_wrt_append)
  qed
qed

lemma nonempty_runs_hd:
  "ps \<noteq> [] \<Longrightarrow> fst (hd ps) = 0 \<Longrightarrow> sorted (map fst ps) \<Longrightarrow> 0 < n
     \<Longrightarrow> nonempty_runs ps n \<noteq> [] \<and> fst (hd (nonempty_runs ps n)) = 0"
  by (induction ps n rule: nonempty_runs.induct) auto

lemma zip_map_fst_snd: "zip (map fst ps) (map snd ps) = ps"
  by (induction ps) auto

lemma align_runs:
  assumes "events c = 0 # es" "es \<noteq> []"
  shows "align c ref =
           \<lparr>events = map fst (nonempty_runs (zip (0 # map (snap ref) (butlast es)) (run_values c))
                                 (last es)) @ [last es],
            run_values = map snd (nonempty_runs (zip (0 # map (snap ref) (butlast es))
                                 (run_values c)) (last es))\<rparr>"
  using assms by (simp add: align_def Let_def)

lemma sorted_map_snap: "sorted xs \<Longrightarrow> sorted (map (snap ref) xs)"
  by (induction xs) (auto simp: snap_mono)

lemma good_starts_snapped:
  assumes "sorted_wrt (<) (0 # es)" "es \<noteq> []"
  shows "good_starts (0 # map (snap ref) (butlast es)) (last es)"
proof -
  let ?I = "butlast es" and ?n = "last es"
  have es: "es = ?I @ [?n]" using assms(2) by simp
  have sI: "sorted_wrt (<) ?I" and In: "\<forall>e\<in>set ?I. e < ?n"
    using assms(1) es by (metis sorted_wrt.simps(2) sorted_wrt_append, 
        metis sorted_wrt.simps(2) sorted_wrt_append list.set_intros(1))
  have n0: "0 < ?n" using assms by (metis last_in_set sorted_wrt.simps(2))
  have "sorted ?I" using sI by (simp add: strict_sorted_imp_sorted)
  then have "sorted (map (snap ref) ?I)"
    by (rule sorted_map_snap)
  then have sorted: "sorted (0 # map (snap ref) ?I)" by simp
  have below: "s < ?n" if s: "s \<in> set (0 # map (snap ref) ?I)"
    and s': "s' \<in> set (0 # map (snap ref) ?I)" and lt: "s < s'" for s s'
  proof -
    from s' lt obtain e2 where e2: "e2 \<in> set ?I" "s' = snap ref e2" by auto
    show ?thesis
    proof (cases "s = 0")
      case True
      then show ?thesis using n0 by simp
    next
      case False
      with s obtain e1 where e1: "e1 \<in> set ?I" "s = snap ref e1" by auto
      show ?thesis
      proof (cases "ref = []")
        case True
        then have "s = e1" using e1 by (simp add: snap_def)
        then show ?thesis using e1 In by simp
      next
        case False
        then have "s \<in> set ref" using e1 by (simp add: snap_in)
        from snap_below[OF this] lt e2 have "s < e2" by simp
        then show ?thesis using e2 In by fastforce
      qed
    qed
  qed
  show ?thesis unfolding good_starts_def using sorted below by blast
qed

text \<open>
  C9 (align is idempotent). For categorical data that satisfies its invariant and any
  reference events, aligning the aligned data again changes nothing; the aligned data
  satisfies the invariant.
\<close>

theorem align_idempotent:
  assumes "valid c"
  shows "align (align c ref) ref = align c ref \<and> valid (align c ref)"
proof -
  from assms obtain es where ev: "events c = 0 # es" and srt: "sorted_wrt (<) (0 # es)"
    and len: "length (run_values c) = length es"
    by (cases "events c") (auto simp: valid_def)
  show ?thesis
  proof (cases "es = []")
    case True
    then have "align c ref = \<lparr>events = [0], run_values = []\<rparr>"
      using ev len by (simp add: align_def)
    then show ?thesis by (simp add: align_def valid_def)
  next
    case False
    let ?n = "last es"
    let ?S = "0 # map (snap ref) (butlast es)"
    define ps where "ps = zip ?S (run_values c)"
    define R where "R = nonempty_runs ps ?n"
    have c': "align c ref = \<lparr>events = map fst R @ [?n], run_values = map snd R\<rparr>"
      unfolding R_def ps_def by (rule align_runs[OF ev False])
    have lenS: "length ?S = length (run_values c)" using len False by simp
    have fst_ps: "map fst ps = ?S" unfolding ps_def using lenS by (simp only: map_fst_zip)
    have good: "good_starts (map fst ps) ?n"
      unfolding fst_ps by (rule good_starts_snapped[OF srt False])
    have n0: "0 < ?n" using srt False by (metis last_in_set sorted_wrt.simps(2))
    have sortedR: "sorted_wrt (<) (map fst R @ [?n])"
      unfolding R_def by (rule nonempty_runs_sorted[OF good])
    have ps_ne: "ps \<noteq> []" using fst_ps by auto
    have hd0: "fst (hd ps) = 0" using fst_ps ps_ne by (metis list.map_sel(1) list.sel(1))
    have "sorted (map fst ps)" using good by (simp add: good_starts_def)
    from nonempty_runs_hd[OF ps_ne hd0 this n0]
    have R_ne: "R \<noteq> []" and hdR: "fst (hd R) = 0" by (simp_all add: R_def)
    have fixed: "snap ref x = x" if "x \<in> set (map fst (tl R))" for x
    proof -
      from ps_ne obtain p ps' where pp: "ps = p # ps'" by (cases ps) auto
      have "set (tl R) \<subseteq> set ps'" unfolding R_def pp by (rule nonempty_runs_tl)
      then have "x \<in> set (map fst ps')" using that by auto
      moreover have "map fst ps' = map (snap ref) (butlast es)" using fst_ps pp by simp
      ultimately obtain e where "x = snap ref e" by auto
      then show ?thesis by (simp add: snap_snap)
    qed
    have evR: "map fst R @ [?n] = 0 # (map fst (tl R) @ [?n])"
      using R_ne hdR by (cases R) auto
    have starts': "0 # map (snap ref) (map fst (tl R)) = map fst R"
    proof -
      have "map (snap ref) (map fst (tl R)) = map fst (tl R)"
        using fixed by (simp add: map_idI)
      then show ?thesis using R_ne hdR by (cases R) auto
    qed
    define c2 where "c2 = \<lparr>events = map fst R @ [?n], run_values = map snd R\<rparr>"
    have ev2: "events c2 = 0 # (map fst (tl R) @ [?n])" using evR by (simp add: c2_def)
    have ne2: "map fst (tl R) @ [?n] \<noteq> []" by simp
    have bl: "butlast (map fst (tl R) @ [?n]) = map fst (tl R)" by simp
    have la: "last (map fst (tl R) @ [?n]) = ?n" by simp
    have rv: "run_values c2 = map snd R" by (simp add: c2_def)
    have "align c2 ref
            = \<lparr>events = map fst (nonempty_runs (zip (map fst R) (map snd R)) ?n) @ [?n],
               run_values = map snd (nonempty_runs (zip (map fst R) (map snd R)) ?n)\<rparr>"
      unfolding align_runs[OF ev2 ne2] bl la starts' rv ..
    also have "nonempty_runs (zip (map fst R) (map snd R)) ?n = R"
      unfolding zip_map_fst_snd by (rule nonempty_runs_fixed[OF sortedR])
    finally have "align c2 ref = c2" by (simp add: c2_def)
    then have idem: "align (align c ref) ref = align c ref" unfolding c' c2_def .
    have "valid (align c ref)"
      unfolding c' valid_def using sortedR hdR R_ne by (cases R) auto
    with idem show ?thesis by simp
  qed
qed

lemma scenario_b_aligned:
  "align scenario_b [0, 4, 10] = \<lparr>events = [0, 4, 10], run_values = [''slew'', ''slew'']\<rparr>"
  by code_simp

theorem align_idempotent_witness:
  "align (align scenario_b [0, 4, 10]) [0, 4, 10]
     = \<lparr>events = [0, 4, 10], run_values = [''slew'', ''slew'']\<rparr>"
proof -
  have "valid scenario_b" by (simp add: valid_def scenario_b_def)
  from align_idempotent[OF this, of "[0, 4, 10]"] show ?thesis
    by (simp only: scenario_b_aligned)
qed

end
